theory Spec2Isabelle
  imports Main "HOL-Library.Word" "HOL-Library.Sublist" "HOL-Library.Multiset"
begin

section \<open>Strings of the host language\<close>

text \<open>
  A string of the program is a finite sequence of 16-bit code units. \<open>js\<close> embeds an
  ASCII literal of the source text.
\<close>

type_synonym code_unit = "16 word"
type_synonym jsstring = "code_unit list"

definition js :: "string \<Rightarrow> jsstring" where
  "js s = map of_char s"

section \<open>The layout: the \<open>activeWidgets\<close> array\<close>

text \<open>
  \<open>activeWidgets\<close> is declared \<open>string[]\<close>. Reading an array outside its bounds yields
  \<open>undefined\<close>, and \<open>moveWidget\<close> can store what it has read, so an element of the
  array is a string or \<open>undefined\<close>.
\<close>

datatype slot = Undefined | WId jsstring

type_synonym layout = "slot list"

text \<open>\<open>arr[i]\<close> for an integral \<open>i\<close>: \<open>undefined\<close> outside the bounds.\<close>

definition js_get :: "layout \<Rightarrow> int \<Rightarrow> slot" where
  "js_get arr i = (if 0 \<le> i \<and> i < int (length arr) then arr ! nat i else Undefined)"

text \<open>
  \<open>arr[i] = v\<close> for an integral \<open>i\<close>: inside the bounds the element is replaced; at or
  beyond the length the array grows up to the index \<open>i\<close> (the positions in between read
  as \<open>undefined\<close>); a negative \<open>i\<close> names a property, not an element, and leaves the
  elements alone.
\<close>

definition js_set :: "layout \<Rightarrow> int \<Rightarrow> slot \<Rightarrow> layout" where
  "js_set arr i v =
     (if i < 0 then arr
      else if i < int (length arr) then arr[nat i := v]
      else arr @ replicate (nat i - length arr) Undefined @ [v])"

text \<open>\<open>arr.includes(id)\<close> and \<open>arr.filter(wId => wId !== id)\<close> for a string \<open>id\<close>.\<close>

definition includes_id :: "layout \<Rightarrow> jsstring \<Rightarrow> bool" where
  "includes_id arr ident = (WId ident \<in> set arr)"

section \<open>Serialising the layout\<close>

text \<open>
  \<open>JSON.stringify\<close> on an array of strings, after ECMA-262 (SerializeJSONArray and
  QuoteJSONString). \<open>undefined\<close> in an array is written \<open>null\<close>.
\<close>

definition hex_digit :: "nat \<Rightarrow> code_unit" where
  "hex_digit n = (if n < 10 then of_nat (48 + n) else of_nat (87 + n))"

text \<open>\<open>\uXXXX\<close> with four lower-case hexadecimal digits.\<close>

definition UnicodeEscape :: "code_unit \<Rightarrow> jsstring" where
  "UnicodeEscape c =
     (let n = unat c
      in [0x5C, 0x75, hex_digit (n div 4096), hex_digit (n div 256 mod 16),
          hex_digit (n div 16 mod 16), hex_digit (n mod 16)])"

definition is_leading_surrogate :: "code_unit \<Rightarrow> bool" where
  "is_leading_surrogate c \<longleftrightarrow> 0xD800 \<le> c \<and> c \<le> 0xDBFF"

definition is_trailing_surrogate :: "code_unit \<Rightarrow> bool" where
  "is_trailing_surrogate c \<longleftrightarrow> 0xDC00 \<le> c \<and> c \<le> 0xDFFF"

text \<open>
  One code unit that is not a surrogate: the two-character escapes of the table
  (backspace, tab, line feed, form feed, carriage return, double quote, backslash), a
  \<open>\u\<close> escape below U+0020, the unit itself otherwise.
\<close>

definition quote_unit :: "code_unit \<Rightarrow> jsstring" where
  "quote_unit c =
     (if c = 0x08 then [0x5C, 0x62]
      else if c = 0x09 then [0x5C, 0x74]
      else if c = 0x0A then [0x5C, 0x6E]
      else if c = 0x0C then [0x5C, 0x66]
      else if c = 0x0D then [0x5C, 0x72]
      else if c = 0x22 then [0x5C, 0x22]
      else if c = 0x5C then [0x5C, 0x5C]
      else if c < 0x20 then UnicodeEscape c
      else [c])"

text \<open>
  The body of a quoted string. The standard walks the code points: a leading surrogate
  followed by a trailing one is one code point, written as its two units; a surrogate
  on its own is written as a \<open>\u\<close> escape.
\<close>

fun quote_units :: "jsstring \<Rightarrow> jsstring" where
  "quote_units [] = []"
| "quote_units [c] =
     (if is_leading_surrogate c \<or> is_trailing_surrogate c then UnicodeEscape c
      else quote_unit c)"
| "quote_units (c # d # cs) =
     (if is_leading_surrogate c then
        (if is_trailing_surrogate d then c # d # quote_units cs
         else UnicodeEscape c @ quote_units (d # cs))
      else if is_trailing_surrogate c then UnicodeEscape c @ quote_units (d # cs)
      else quote_unit c @ quote_units (d # cs))"

definition QuoteJSONString :: "jsstring \<Rightarrow> jsstring" where
  "QuoteJSONString s = [0x22] @ quote_units s @ [0x22]"

fun serialize_slot :: "slot \<Rightarrow> jsstring" where
  "serialize_slot Undefined = js ''null''"
| "serialize_slot (WId s) = QuoteJSONString s"

fun join_comma :: "jsstring list \<Rightarrow> jsstring" where
  "join_comma [] = []"
| "join_comma [p] = p"
| "join_comma (p # q # ps) = p @ [0x2C] @ join_comma (q # ps)"

definition JSON_stringify :: "layout \<Rightarrow> jsstring" where
  "JSON_stringify arr = [0x5B] @ join_comma (map serialize_slot arr) @ [0x5D]"

section \<open>The application state and the layout handlers\<close>

text \<open>
  The state of the component \<open>App\<close>: its three \<open>useState\<close> cells and the browser's
  \<open>localStorage\<close>, a map from keys to string values.
\<close>

type_synonym storage = "jsstring \<rightharpoonup> jsstring"

record app =
  activeWidgets :: layout
  editMode :: bool
  showAddModal :: bool
  localStorage :: storage

text \<open>
  The effect \<open>useEffect(() => localStorage.setItem("dashboard_widgets",
  JSON.stringify(activeWidgets)), [activeWidgets])\<close>.
\<close>

definition persist :: "app \<Rightarrow> app" where
  "persist a =
     a\<lparr>localStorage := (localStorage a)(js ''dashboard_widgets'' \<mapsto> JSON_stringify (activeWidgets a))\<rparr>"

text \<open>
  \<open>setActiveWidgets(v)\<close>: the handlers below always pass a freshly built array, so the
  dependency of the effect has changed and the effect runs after the render that
  follows the update.
\<close>

definition setActiveWidgets :: "layout \<Rightarrow> app \<Rightarrow> app" where
  "setActiveWidgets v a = persist (a\<lparr>activeWidgets := v\<rparr>)"

datatype direction = Left | Right

text \<open>
  \<open>moveWidget(index, direction)\<close>. The destructuring assignment evaluates its right-hand
  side \<open>[newWidgets[targetIndex], newWidgets[index]]\<close> first and then assigns
  \<open>newWidgets[index]\<close> and \<open>newWidgets[targetIndex]\<close> in this order. \<open>index\<close> ranges
  over the integers.
\<close>

definition targetIndex :: "int \<Rightarrow> direction \<Rightarrow> int" where
  "targetIndex index direction = (if direction = Left then index - 1 else index + 1)"

definition moveWidget :: "int \<Rightarrow> direction \<Rightarrow> app \<Rightarrow> app" where
  "moveWidget index direction a =
     (let newWidgets = activeWidgets a;
          t = targetIndex index direction
      in if t \<ge> 0 \<and> t < int (length newWidgets) then
           (let rhs0 = js_get newWidgets t;
                rhs1 = js_get newWidgets index;
                newWidgets1 = js_set newWidgets index rhs0;
                newWidgets2 = js_set newWidgets1 t rhs1
            in setActiveWidgets newWidgets2 a)
         else a)"

definition removeWidget :: "jsstring \<Rightarrow> app \<Rightarrow> app" where
  "removeWidget ident a =
     setActiveWidgets (filter (\<lambda>wId. wId \<noteq> WId ident) (activeWidgets a)) a"

definition addWidget :: "jsstring \<Rightarrow> app \<Rightarrow> app" where
  "addWidget ident a =
     (let a1 = (if \<not> includes_id (activeWidgets a) ident
                then setActiveWidgets (activeWidgets a @ [WId ident]) a
                else a)
      in a1\<lparr>showAddModal := False\<rparr>)"

text \<open>The default layout of the \<open>useState\<close> initialiser.\<close>

definition default_widgets :: "jsstring list" where
  "default_widgets = map js [''w-ai'', ''w-stats'', ''w-activity'', ''w-saved'', ''w-timer'']"

section \<open>Reading the layout back: \<open>JSON.parse\<close>\<close>

text \<open>
  \<open>JSON.parse\<close> after ECMA-262 and ECMA-404: the text is one JSON value between optional
  white space (tab, line feed, carriage return, space); anything else raises
  \<open>SyntaxError\<close>. A number is kept as its lexeme (its floating-point value plays no part
  here), an object as the list of its members in the order of the text.
\<close>

datatype json = JNull | JBool bool | JNumber jsstring | JString jsstring
  | JArray "json list" | JObject "(jsstring \<times> json) list"

datatype js_error = SyntaxError | TypeError

datatype token = TLBracket | TRBracket | TLBrace | TRBrace | TColon | TComma
  | TString jsstring | TNumber jsstring | TTrue | TFalse | TNull

definition is_whitespace :: "code_unit \<Rightarrow> bool" where
  "is_whitespace c \<longleftrightarrow> c = 0x09 \<or> c = 0x0A \<or> c = 0x0D \<or> c = 0x20"

definition is_digit :: "code_unit \<Rightarrow> bool" where
  "is_digit c \<longleftrightarrow> 0x30 \<le> c \<and> c \<le> 0x39"

text \<open>The value of a hexadecimal digit, in either case.\<close>

definition hex_value :: "code_unit \<Rightarrow> nat option" where
  "hex_value c =
     (if 0x30 \<le> c \<and> c \<le> 0x39 then Some (unat c - 48)
      else if 0x41 \<le> c \<and> c \<le> 0x46 then Some (unat c - 55)
      else if 0x61 \<le> c \<and> c \<le> 0x66 then Some (unat c - 87)
      else None)"

definition hex4 ::
  "code_unit \<Rightarrow> code_unit \<Rightarrow> code_unit \<Rightarrow> code_unit \<Rightarrow> code_unit option" where
  "hex4 h1 h2 h3 h4 =
     (case (hex_value h1, hex_value h2, hex_value h3, hex_value h4) of
        (Some a, Some b, Some c, Some d) \<Rightarrow> Some (of_nat (((a * 16 + b) * 16 + c) * 16 + d))
      | _ \<Rightarrow> None)"

text \<open>The character after a backslash: \<open>" \ / b f n r t\<close>.\<close>

definition unescape :: "code_unit \<Rightarrow> code_unit option" where
  "unescape e =
     (if e = 0x22 then Some 0x22
      else if e = 0x5C then Some 0x5C
      else if e = 0x2F then Some 0x2F
      else if e = 0x62 then Some 0x08
      else if e = 0x66 then Some 0x0C
      else if e = 0x6E then Some 0x0A
      else if e = 0x72 then Some 0x0D
      else if e = 0x74 then Some 0x09
      else None)"

text \<open>
  A string, from behind its opening quote: the code units read so far are in \<open>acc\<close>,
  last one first. The result is the string and the text behind the closing quote.
  A code unit below U+0020 may not stand in a string.
\<close>

fun lex_string :: "jsstring \<Rightarrow> jsstring \<Rightarrow> (jsstring \<times> jsstring) option" where
  "lex_string [] acc = None"
| "lex_string (c # cs) acc =
     (if c = 0x22 then Some (rev acc, cs)
      else if c = 0x5C then
        (case cs of
           [] \<Rightarrow> None
         | e # es \<Rightarrow>
             if e = 0x75 then
               (case es of
                  h1 # h2 # h3 # h4 # rest \<Rightarrow>
                    (case hex4 h1 h2 h3 h4 of
                       None \<Rightarrow> None
                     | Some u \<Rightarrow> lex_string rest (u # acc))
                | _ \<Rightarrow> None)
             else
               (case unescape e of
                  None \<Rightarrow> None
                | Some u \<Rightarrow> lex_string es (u # acc)))
      else if c < 0x20 then None
      else lex_string cs (c # acc))"

text \<open>
  A number: an optional minus, then \<open>0\<close> or digits that do not start with \<open>0\<close>, then an
  optional fraction, then an optional exponent. Each part returns its lexeme and the
  text behind it.
\<close>

definition lex_integer :: "jsstring \<Rightarrow> (jsstring \<times> jsstring) option" where
  "lex_integer cs =
     (let sign = (case cs of [] \<Rightarrow> [] | c # _ \<Rightarrow> if c = 0x2D then [c] else []);
          r = drop (length sign) cs;
          ds = takeWhile is_digit r
      in if ds = [] \<or> (hd ds = 0x30 \<and> 1 < length ds) then None
         else Some (sign @ ds, dropWhile is_digit r))"

definition lex_fraction :: "jsstring \<Rightarrow> (jsstring \<times> jsstring) option" where
  "lex_fraction cs =
     (case cs of
        [] \<Rightarrow> Some ([], cs)
      | c # r \<Rightarrow>
          if c = 0x2E then
            (let ds = takeWhile is_digit r
             in if ds = [] then None else Some (c # ds, dropWhile is_digit r))
          else Some ([], cs))"

definition lex_exponent :: "jsstring \<Rightarrow> (jsstring \<times> jsstring) option" where
  "lex_exponent cs =
     (case cs of
        [] \<Rightarrow> Some ([], cs)
      | c # r \<Rightarrow>
          if c = 0x65 \<or> c = 0x45 then
            (let sign = (case r of [] \<Rightarrow> [] | s # _ \<Rightarrow> if s = 0x2B \<or> s = 0x2D then [s] else []);
                 r' = drop (length sign) r;
                 ds = takeWhile is_digit r'
             in if ds = [] then None else Some (c # sign @ ds, dropWhile is_digit r'))
          else Some ([], cs))"

definition lex_number :: "jsstring \<Rightarrow> (jsstring \<times> jsstring) option" where
  "lex_number cs =
     (case lex_integer cs of
        None \<Rightarrow> None
      | Some (i, r1) \<Rightarrow>
          (case lex_fraction r1 of
             None \<Rightarrow> None
           | Some (f, r2) \<Rightarrow>
               (case lex_exponent r2 of
                  None \<Rightarrow> None
                | Some (e, r3) \<Rightarrow> Some (i @ f @ e, r3))))"

text \<open>Every token takes at least one code unit off the text: the lexer terminates.\<close>

lemma lex_string_shorter:
  "lex_string cs acc = Some (s, rest) \<Longrightarrow> length rest < length cs"
proof (induction cs acc rule: lex_string.induct)
  case (1 acc)
  then show ?case by simp
next
  case (2 c cs acc)
  show ?case
  proof (cases "c = 0x22")
    case True
    with 2(4) show ?thesis by simp
  next
    case nq: False
    show ?thesis
    proof (cases "c = 0x5C")
      case bs: True
      show ?thesis
      proof (cases cs)
        case Nil
        with 2(4) nq bs show ?thesis by simp
      next
        case (Cons e es)
        show ?thesis
        proof (cases "e = 0x75")
          case u: True
          from 2(4) nq bs Cons u obtain h1 h2 h3 h4 r v where
            es: "es = h1 # h2 # h3 # h4 # r" and h: "hex4 h1 h2 h3 h4 = Some v"
            and l: "lex_string r (v # acc) = Some (s, rest)"
            by (auto split: list.splits option.splits)
          from 2(1) [OF nq bs Cons u es _ _ _ h l] have "length rest < length r"
            by simp
          then show ?thesis using Cons es by simp
        next
          case nu: False
          from 2(4) nq bs Cons nu obtain v where
            v: "unescape e = Some v" and l: "lex_string es (v # acc) = Some (s, rest)"
            by (auto split: option.splits)
          from 2(2) [OF nq bs Cons nu v l] show ?thesis using Cons by simp
        qed
      qed
    next
      case nbs: False
      with 2(4) nq have c: "\<not> c < 0x20" and l: "lex_string cs (c # acc) = Some (s, rest)"
        by (auto split: if_splits)
      from 2(3) [OF nq nbs c l] show ?thesis by simp
    qed
  qed
qed

lemma lex_integer_shorter:
  assumes "lex_integer cs = Some (n, rest)"
  shows "length rest < length cs"
proof -
  define sign where "sign = (case cs of [] \<Rightarrow> [] | c # _ \<Rightarrow> if c = 0x2D then [c] else [])"
  define r where "r = drop (length sign) cs"
  from assms have ne: "takeWhile is_digit r \<noteq> []" and rest: "rest = dropWhile is_digit r"
    by (auto simp: lex_integer_def Let_def sign_def r_def split: if_splits)
  have "length (takeWhile is_digit r) + length (dropWhile is_digit r) = length r"
    by (metis length_append takeWhile_dropWhile_id)
  with ne have "length rest < length r"
    using rest by (cases "takeWhile is_digit r") auto
  then show ?thesis
    by (simp add: r_def)
qed

lemma length_dropWhile_drop_le: "length (dropWhile P (drop n xs)) \<le> length xs"
  by (rule order_trans [OF length_dropWhile_le]) simp

lemma lex_fraction_le:
  "lex_fraction cs = Some (f, rest) \<Longrightarrow> length rest \<le> length cs"
  unfolding lex_fraction_def Let_def
  by (cases cs) (auto split: if_splits intro: le_SucI length_dropWhile_le)

lemma lex_exponent_le:
  assumes "lex_exponent cs = Some (f, rest)"
  shows "length rest \<le> length cs"
proof (cases cs)
  case Nil
  then show ?thesis
    using assms by (simp add: lex_exponent_def)
next
  case (Cons c r)
  show ?thesis
  proof (cases "c = 0x65 \<or> c = 0x45")
    case False
    then show ?thesis
      using assms Cons by (simp add: lex_exponent_def)
  next
    case True
    then obtain n where "rest = dropWhile is_digit (drop n r)"
      using assms Cons by (auto simp: lex_exponent_def Let_def split: if_splits)
    then show ?thesis
      using Cons by (simp add: le_SucI length_dropWhile_drop_le)
  qed
qed

lemma lex_number_shorter:
  "lex_number cs = Some (n, rest) \<Longrightarrow> length rest < length cs"
  by (auto simp: lex_number_def split: option.splits
      dest!: lex_integer_shorter lex_fraction_le lex_exponent_le)

text \<open>The tokens of a text; \<open>None\<close> where no token starts.\<close>

function lex :: "jsstring \<Rightarrow> token list option" where
  "lex [] = Some []"
| "lex (c # cs) =
     (if is_whitespace c then lex cs
      else if c = 0x5B then map_option (Cons TLBracket) (lex cs)
      else if c = 0x5D then map_option (Cons TRBracket) (lex cs)
      else if c = 0x7B then map_option (Cons TLBrace) (lex cs)
      else if c = 0x7D then map_option (Cons TRBrace) (lex cs)
      else if c = 0x3A then map_option (Cons TColon) (lex cs)
      else if c = 0x2C then map_option (Cons TComma) (lex cs)
      else if c = 0x22 then
        (case lex_string cs [] of
           None \<Rightarrow> None
         | Some (s, rest) \<Rightarrow> map_option (Cons (TString s)) (lex rest))
      else if c = 0x2D \<or> is_digit c then
        (case lex_number (c # cs) of
           None \<Rightarrow> None
         | Some (n, rest) \<Rightarrow> map_option (Cons (TNumber n)) (lex rest))
      else if take 4 (c # cs) = js ''true'' then map_option (Cons TTrue) (lex (drop 3 cs))
      else if take 5 (c # cs) = js ''false'' then map_option (Cons TFalse) (lex (drop 4 cs))
      else if take 4 (c # cs) = js ''null'' then map_option (Cons TNull) (lex (drop 3 cs))
      else None)"
  by pat_completeness auto
termination
  by (relation "measure length")
     (auto dest: lex_string_shorter lex_number_shorter)

text \<open>
  The grammar of values over the tokens, as a pushdown automaton: the stack holds the
  arrays and objects that are open, innermost first, each with what it has collected
  (last item first); the mode says which tokens may come next.
\<close>

datatype frame = FArray "json list" | FObject "(jsstring \<times> json) list"
  | FMember "(jsstring \<times> json) list" jsstring

datatype mode = ExpectValue | ExpectValueOrEnd | ExpectKeyOrEnd | ExpectKey | ExpectColon
  | ExpectCommaOrEnd | Done json

text \<open>A value is complete: it is the whole text, an element, or the value of a member.\<close>

fun complete :: "json \<Rightarrow> frame list \<Rightarrow> (mode \<times> frame list) option" where
  "complete v [] = Some (Done v, [])"
| "complete v (FArray es # st) = Some (ExpectCommaOrEnd, FArray (v # es) # st)"
| "complete v (FMember ms k # st) = Some (ExpectCommaOrEnd, FObject ((k, v) # ms) # st)"
| "complete v (FObject ms # st) = None"

fun begin_value :: "token \<Rightarrow> frame list \<Rightarrow> (mode \<times> frame list) option" where
  "begin_value TLBracket st = Some (ExpectValueOrEnd, FArray [] # st)"
| "begin_value TLBrace st = Some (ExpectKeyOrEnd, FObject [] # st)"
| "begin_value (TString s) st = complete (JString s) st"
| "begin_value (TNumber n) st = complete (JNumber n) st"
| "begin_value TTrue st = complete (JBool True) st"
| "begin_value TFalse st = complete (JBool False) st"
| "begin_value TNull st = complete JNull st"
| "begin_value _ st = None"

fun close_array :: "frame list \<Rightarrow> (mode \<times> frame list) option" where
  "close_array (FArray es # st) = complete (JArray (rev es)) st"
| "close_array _ = None"

fun close_object :: "frame list \<Rightarrow> (mode \<times> frame list) option" where
  "close_object (FObject ms # st) = complete (JObject (rev ms)) st"
| "close_object _ = None"

fun read_key :: "token \<Rightarrow> frame list \<Rightarrow> (mode \<times> frame list) option" where
  "read_key (TString k) (FObject ms # st) = Some (ExpectColon, FMember ms k # st)"
| "read_key _ _ = None"

fun next_item :: "frame list \<Rightarrow> (mode \<times> frame list) option" where
  "next_item (FArray es # st) = Some (ExpectValue, FArray es # st)"
| "next_item (FObject ms # st) = Some (ExpectKey, FObject ms # st)"
| "next_item _ = None"

fun step :: "mode \<Rightarrow> token \<Rightarrow> frame list \<Rightarrow> (mode \<times> frame list) option" where
  "step ExpectValue t st = begin_value t st"
| "step ExpectValueOrEnd t st = (if t = TRBracket then close_array st else begin_value t st)"
| "step ExpectKeyOrEnd t st = (if t = TRBrace then close_object st else read_key t st)"
| "step ExpectKey t st = read_key t st"
| "step ExpectColon t st = (if t = TColon then Some (ExpectValue, st) else None)"
| "step ExpectCommaOrEnd t st =
     (if t = TComma then next_item st
      else if t = TRBracket then close_array st
      else if t = TRBrace then close_object st
      else None)"
| "step (Done v) t st = None"

fun run :: "mode \<Rightarrow> frame list \<Rightarrow> token list \<Rightarrow> json option" where
  "run (Done v) [] [] = Some v"
| "run m st [] = None"
| "run m st (t # ts) =
     (case step m t st of None \<Rightarrow> None | Some (m', st') \<Rightarrow> run m' st' ts)"

definition JSON_parse :: "jsstring \<Rightarrow> js_error + json" where
  "JSON_parse text =
     (case lex text of
        None \<Rightarrow> Inl SyntaxError
      | Some ts \<Rightarrow>
          (case run ExpectValue [] ts of None \<Rightarrow> Inl SyntaxError | Some v \<Rightarrow> Inr v))"

section \<open>The start of a session\<close>

text \<open>
  The \<open>useState\<close> initialiser: \<open>localStorage.getItem\<close> yields \<open>null\<close> for a key that is
  not stored; \<open>null\<close> and the empty string are falsy and select the default array; every
  other stored string goes to \<open>JSON.parse\<close>, whose result is returned as it is and whose
  exception is not caught.
\<close>

definition load :: "storage \<Rightarrow> js_error + json" where
  "load ls =
     (case ls (js ''dashboard_widgets'') of
        None \<Rightarrow> Inr (JArray (map JString default_widgets))
      | Some saved \<Rightarrow>
          if saved = [] then Inr (JArray (map JString default_widgets))
          else JSON_parse saved)"

text \<open>The value of a layout element once written and read back.\<close>

fun json_of_slot :: "slot \<Rightarrow> json" where
  "json_of_slot Undefined = JNull"
| "json_of_slot (WId s) = JString s"

text \<open>A JSON value read as a \<open>string[]\<close>: an array all of whose elements are strings.\<close>

fun strings_of :: "json list \<Rightarrow> jsstring list option" where
  "strings_of [] = Some []"
| "strings_of (JString s # vs) = map_option (Cons s) (strings_of vs)"
| "strings_of (_ # vs) = None"

fun as_layout :: "json \<Rightarrow> layout option" where
  "as_layout (JArray vs) = map_option (map WId) (strings_of vs)"
| "as_layout _ = None"

fun is_array :: "json \<Rightarrow> bool" where
  "is_array (JArray vs) = True"
| "is_array _ = False"

text \<open>
  Mounting \<open>App\<close>: the initialiser runs, the component renders, and the persisting effect
  runs once. An exception of the initialiser ends the session. So does an initial value
  that is not an array: the first render calls \<open>activeWidgets.includes\<close> and
  \<open>activeWidgets.map\<close>, and on \<open>null\<close>, a boolean, a number, a string or an object of a
  JSON text one of the two calls raises \<open>TypeError\<close>. The session is followed where the
  initial value has the declared type \<open>string[]\<close>; \<open>Untyped\<close> stands for an array
  with an element that is not a string.
\<close>

datatype start = Raised js_error | Untyped json | Started app

definition App_start :: "storage \<Rightarrow> start" where
  "App_start ls =
     (case load ls of
        Inl e \<Rightarrow> Raised e
      | Inr v \<Rightarrow>
          (case as_layout v of
             None \<Rightarrow> if is_array v then Untyped v else Raised TypeError
           | Some ws \<Rightarrow>
               Started (persist \<lparr>activeWidgets = ws, editMode = False, showAddModal = False,
                                 localStorage = ls\<rparr>)))"

section \<open>The catalog and the rendering of the grid\<close>

datatype widget_type = AiBriefing | Activity | Saved | Stats | Timer | Weather

record WidgetDef =
  id_w :: jsstring
  type_w :: widget_type
  title :: jsstring
  colSpan :: nat

definition AVAILABLE_WIDGETS :: "WidgetDef list" where
  "AVAILABLE_WIDGETS =
     [\<lparr>id_w = js ''w-ai'', type_w = AiBriefing, title = js ''Daily Briefing'', colSpan = 2\<rparr>,
      \<lparr>id_w = js ''w-stats'', type_w = Stats, title = js ''Overview'', colSpan = 1\<rparr>,
      \<lparr>id_w = js ''w-activity'', type_w = Activity, title = js ''Recent Activity'', colSpan = 1\<rparr>,
      \<lparr>id_w = js ''w-saved'', type_w = Saved, title = js ''Saved For Later'', colSpan = 2\<rparr>,
      \<lparr>id_w = js ''w-timer'', type_w = Timer, title = js ''Focus Timer'', colSpan = 1\<rparr>]"

datatype component = AIBriefingWidget | ActivityWidget | SavedItemsWidget | StatsWidget
  | TimerWidget

fun renderWidgetContent :: "widget_type \<Rightarrow> component option" where
  "renderWidgetContent AiBriefing = Some AIBriefingWidget"
| "renderWidgetContent Activity = Some ActivityWidget"
| "renderWidgetContent Saved = Some SavedItemsWidget"
| "renderWidgetContent Stats = Some StatsWidget"
| "renderWidgetContent Timer = Some TimerWidget"
| "renderWidgetContent _ = None"

text \<open>
  One \<open>WidgetContainer\<close> element: its key, its definition, the edit flag, the arguments
  its two callbacks pass to \<open>removeWidget\<close> and \<open>moveWidget\<close>, and its content.
\<close>

record WidgetContainer =
  key :: slot
  def_w :: WidgetDef
  editMode_w :: bool
  onRemove :: slot
  onMove :: nat
  children :: "component option"

text \<open>\<open>AVAILABLE_WIDGETS.find(w => w.id === widgetId)\<close>.\<close>

definition find_def :: "slot \<Rightarrow> WidgetDef option" where
  "find_def widgetId = find (\<lambda>w. WId (id_w w) = widgetId) AVAILABLE_WIDGETS"

text \<open>
  The body of \<open>activeWidgets.map((widgetId, index) => ...)\<close>: \<open>null\<close> for an identifier
  the catalog does not hold.
\<close>

definition render_widget :: "bool \<Rightarrow> nat \<Rightarrow> slot \<Rightarrow> WidgetContainer option" where
  "render_widget edit index widgetId =
     (case find_def widgetId of
        None \<Rightarrow> None
      | Some d \<Rightarrow>
          Some \<lparr>key = widgetId, def_w = d, editMode_w = edit, onRemove = widgetId,
                onMove = index, children = renderWidgetContent (type_w d)\<rparr>)"

definition render_grid :: "app \<Rightarrow> WidgetContainer option list" where
  "render_grid a =
     map (\<lambda>(index, widgetId). render_widget (editMode a) index widgetId)
       (enumerate 0 (activeWidgets a))"

section \<open>The insight widget\<close>

text \<open>
  The two state cells of \<open>AIBriefingWidget\<close>, and beside them the number of calls of
  \<open>ai.models.generateContent\<close> that have been issued and have not settled yet.
\<close>

record widget =
  briefing :: "jsstring option"
  loading :: bool
  in_flight :: nat

definition initial_widget :: widget where
  "initial_widget = \<lparr>briefing = None, loading = False, in_flight = 0\<rparr>"

definition NOT_CONFIGURED :: jsstring where
  "NOT_CONFIGURED = js ''API Key not configured. Please set process.env.API_KEY.''"

definition CALL_FAILED :: jsstring where
  "CALL_FAILED = js ''Could not generate briefing at this time.''"

text \<open>What \<open>generateBriefing\<close> does, one effect after the other.\<close>

datatype effect = SetBriefing "jsstring option" | SetLoading bool | CallGenerateContent

fun perform :: "effect \<Rightarrow> widget \<Rightarrow> widget" where
  "perform (SetBriefing b) w = w\<lparr>briefing := b\<rparr>"
| "perform (SetLoading l) w = w\<lparr>loading := l\<rparr>"
| "perform CallGenerateContent w = w\<lparr>in_flight := Suc (in_flight w)\<rparr>"

text \<open>The states a list of effects leads through, and the last of them.\<close>

fun states_through :: "effect list \<Rightarrow> widget \<Rightarrow> widget list" where
  "states_through [] w = []"
| "states_through (e # es) w = perform e w # states_through es (perform e w)"

definition perform_all :: "effect list \<Rightarrow> widget \<Rightarrow> widget" where
  "perform_all es w = fold perform es w"

text \<open>\<open>process.env.API_KEY\<close> is a string or \<open>undefined\<close>; \<open>!API_KEY\<close> holds for
  \<open>undefined\<close> and for the empty string.\<close>

definition truthy :: "jsstring option \<Rightarrow> bool" where
  "truthy v = (case v of None \<Rightarrow> False | Some s \<Rightarrow> s \<noteq> [])"

text \<open>
  \<open>generateBriefing\<close> up to its \<open>await\<close>: without a key it sets the message and returns;
  with a key it sets \<open>loading\<close> and enters the \<open>try\<close> block, where either the call is
  issued, or an exception is raised before that (by the constructor of the client or by
  the call itself) and the \<open>catch\<close> and \<open>finally\<close> blocks run at once. Which of the
  two happens is up to the client library.
\<close>

datatype attempt = Issued | Threw

definition generateBriefing :: "jsstring option \<Rightarrow> attempt \<Rightarrow> effect list" where
  "generateBriefing API_KEY att =
     (if \<not> truthy API_KEY then [SetBriefing (Some NOT_CONFIGURED)]
      else case att of
             Issued \<Rightarrow> [SetLoading True, CallGenerateContent]
           | Threw \<Rightarrow> [SetLoading True, SetBriefing (Some CALL_FAILED), SetLoading False])"

text \<open>
  \<open>generateBriefing\<close> behind its \<open>await\<close>: the call has settled, with the text of the
  response (a string or \<open>undefined\<close>) or with an exception, which the \<open>catch\<close> block
  turns into a message; \<open>finally\<close> clears \<open>loading\<close>.
\<close>

datatype outcome = Fulfilled "jsstring option" | Rejected

fun settled :: "outcome \<Rightarrow> effect list" where
  "settled (Fulfilled text) = [SetBriefing text, SetLoading False]"
| "settled Rejected = [SetBriefing (Some CALL_FAILED), SetLoading False]"

text \<open>
  The events of a mounted widget: a click on the refresh button, which calls
  \<open>generateBriefing\<close> in whatever state the widget is, and the settling of a call in
  flight. Mounting runs \<open>generateBriefing\<close> once, from the initial state.
\<close>

datatype event = Refresh attempt | Settle outcome

fun handle :: "jsstring option \<Rightarrow> event \<Rightarrow> widget \<Rightarrow> widget" where
  "handle API_KEY (Refresh att) w = perform_all (generateBriefing API_KEY att) w"
| "handle API_KEY (Settle out) w =
     (if in_flight w = 0 then w
      else perform_all (settled out) (w\<lparr>in_flight := in_flight w - 1\<rparr>))"

definition mount :: "jsstring option \<Rightarrow> attempt \<Rightarrow> widget" where
  "mount API_KEY att = handle API_KEY (Refresh att) initial_widget"

definition run_events :: "jsstring option \<Rightarrow> attempt \<Rightarrow> event list \<Rightarrow> widget" where
  "run_events API_KEY att evs = fold (handle API_KEY) evs (mount API_KEY att)"

text \<open>
  What the widget shows: the placeholder bars while \<open>loading\<close>, otherwise the paragraph
  \<open>briefing || "Welcome back! Ready to start your day?"\<close>, where \<open>null\<close>, \<open>undefined\<close>
  and the empty string are falsy.
\<close>

datatype shown = Placeholder | Paragraph jsstring

definition WELCOME :: jsstring where
  "WELCOME = js ''Welcome back! Ready to start your day?''"

definition display :: "widget \<Rightarrow> shown" where
  "display w =
     (if loading w then Placeholder
      else Paragraph (if truthy (briefing w)
                      then (case briefing w of Some text \<Rightarrow> text | None \<Rightarrow> WELCOME)
                      else WELCOME))"

section \<open>Sequences of layout operations\<close>

text \<open>
  The identifiers of a layout are its string elements, in order; a layout has no
  duplicate identifier when no string occurs twice among them.
\<close>

fun identifiers :: "layout \<Rightarrow> jsstring list" where
  "identifiers [] = []"
| "identifiers (Undefined # ws) = identifiers ws"
| "identifiers (WId s # ws) = s # identifiers ws"

definition no_duplicate_ids :: "layout \<Rightarrow> bool" where
  "no_duplicate_ids ws = distinct (identifiers ws)"

text \<open>
  The three mutators under the names of the specification: \<open>append\<close> is \<open>addWidget\<close>,
  \<open>remove\<close> is \<open>removeWidget\<close>, \<open>moveAdjacent\<close> is \<open>moveWidget\<close> (\<open>before\<close> is
  \<open>'left'\<close>, \<open>after\<close> is \<open>'right'\<close>).
\<close>

datatype operation = Append jsstring | Remove jsstring | MoveAdjacent int direction

fun apply_operation :: "operation \<Rightarrow> app \<Rightarrow> app" where
  "apply_operation (Append ident) a = addWidget ident a"
| "apply_operation (Remove ident) a = removeWidget ident a"
| "apply_operation (MoveAdjacent index d) a = moveWidget index d a"

definition apply_operations :: "operation list \<Rightarrow> app \<Rightarrow> app" where
  "apply_operations ops a = fold apply_operation ops a"

text \<open>
  The state the initialisers build when nothing is stored, before the first effect has
  run.
\<close>

definition default_app :: app where
  "default_app =
     \<lparr>activeWidgets = map WId default_widgets, editMode = False, showAddModal = False,
      localStorage = Map.empty\<rparr>"

section \<open>Notions used to state the properties\<close>

text \<open>The token of a layout element, and a list of tokens with commas in between.\<close>

fun slot_token :: "slot \<Rightarrow> token" where
  "slot_token Undefined = TNull"
| "slot_token (WId s) = TString s"

fun separated :: "token list \<Rightarrow> token list" where
  "separated [] = []"
| "separated [t] = [t]"
| "separated (t # u # ts) = t # TComma # separated (u # ts)"

text \<open>The storage holds the serialised layout of the state.\<close>

definition in_sync :: "app \<Rightarrow> bool" where
  "in_sync a \<longleftrightarrow>
     localStorage a (js ''dashboard_widgets'') = Some (JSON_stringify (activeWidgets a))"

text \<open>A storage whose layout entry is the given ASCII text.\<close>

definition stored :: "string \<Rightarrow> storage" where
  "stored text = Map.empty(js ''dashboard_widgets'' \<mapsto> js text)"

text \<open>
  A state whose layout holds \<open>w-weather\<close>, an identifier the catalog does not define,
  with the storage a session would have written for it.
\<close>

definition stale_app :: app where
  "stale_app =
     \<lparr>activeWidgets = [WId (js ''w-ai''), WId (js ''w-weather''), WId (js ''w-timer'')],
      editMode = False, showAddModal = False,
      localStorage = stored ''[\"w-ai\",\"w-weather\",\"w-timer\"]''\<rparr>"

section \<open>Basic facts\<close>

lemma unat_of_char16: "unat (of_char c :: code_unit) = of_char c"
proof -
  have "(of_char c :: code_unit) = of_nat (of_char c)"
    by (simp add: of_nat_of_char)
  moreover have "(of_char c :: nat) < 2 ^ 16"
    using nat_of_char_less_256 [of c] by (rule order_less_trans) simp
  ultimately show ?thesis
    by (simp add: unat_of_nat)
qed

lemma js_inject [simp]: "js s = js t \<longleftrightarrow> s = t"
proof -
  have "inj (of_char :: char \<Rightarrow> code_unit)"
  proof (rule injI)
    fix x y :: char
    assume "(of_char x :: code_unit) = of_char y"
    then have "unat (of_char x :: code_unit) = unat (of_char y :: code_unit)"
      by simp
    then show "x = y"
      by (simp add: unat_of_char16)
  qed
  then show ?thesis
    by (simp add: js_def inj_eq)
qed

lemma activeWidgets_setActiveWidgets [simp]: "activeWidgets (setActiveWidgets v a) = v"
  by (simp add: setActiveWidgets_def persist_def)

lemma activeWidgets_removeWidget:
  "activeWidgets (removeWidget ident a) = filter (\<lambda>wId. wId \<noteq> WId ident) (activeWidgets a)"
  by (simp add: removeWidget_def)

lemma activeWidgets_addWidget:
  "activeWidgets (addWidget ident a) =
     (if WId ident \<in> set (activeWidgets a) then activeWidgets a
      else activeWidgets a @ [WId ident])"
  by (simp add: addWidget_def includes_id_def)

lemma activeWidgets_moveWidget:
  "activeWidgets (moveWidget index d a) =
     (let ws = activeWidgets a; t = targetIndex index d
      in if 0 \<le> t \<and> t < int (length ws)
         then js_set (js_set ws index (js_get ws t)) t (js_get ws index) else ws)"
  by (simp add: moveWidget_def Let_def)

lemma swap_in_range:
  assumes "0 \<le> i" "i < int (length ws)" "0 \<le> t" "t < int (length ws)"
  shows "js_set (js_set ws i (js_get ws t)) t (js_get ws i)
           = ws[nat i := ws ! nat t, nat t := ws ! nat i]"
  using assms by (simp add: js_set_def js_get_def)

text \<open>
  Where the neighbour exists and \<open>index\<close> itself does not address an element: reading
  \<open>newWidgets[index]\<close> yields \<open>undefined\<close>, which is stored at the neighbour's place.
\<close>

lemma swap_index_minus_one:
  assumes "0 < length ws"
  shows "js_set (js_set ws (- 1) (js_get ws 0)) 0 (js_get ws (- 1)) = ws[0 := Undefined]"
  using assms by (simp add: js_set_def js_get_def)

lemma swap_index_length:
  assumes "0 < length ws"
  shows "js_set (js_set ws (int (length ws)) (js_get ws (int (length ws) - 1)))
           (int (length ws) - 1) (js_get ws (int (length ws)))
         = butlast ws @ [Undefined, last ws]"
proof -
  have n1: "nat (int (length ws) - 1) = length ws - 1"
    by arith
  have "js_set (js_set ws (int (length ws)) (js_get ws (int (length ws) - 1)))
           (int (length ws) - 1) (js_get ws (int (length ws)))
        = (ws @ [ws ! (length ws - 1)])[length ws - 1 := Undefined]"
    using assms by (simp add: js_set_def js_get_def n1)
  also have "\<dots> = butlast ws @ [Undefined, last ws]"
    using assms
    by (cases ws rule: rev_cases) (simp_all add: last_conv_nth list_update_append nth_append)
  finally show ?thesis .
qed

section \<open>The identifiers of a layout\<close>

lemma identifiers_append [simp]: "identifiers (xs @ ys) = identifiers xs @ identifiers ys"
  by (induction xs rule: identifiers.induct) simp_all

lemma set_identifiers [simp]: "set (identifiers ws) = {s. WId s \<in> set ws}"
  by (induction ws rule: identifiers.induct) auto

lemma identifiers_filter:
  "identifiers (filter (\<lambda>w. w \<noteq> WId s) ws) = filter (\<lambda>t. t \<noteq> s) (identifiers ws)"
  by (induction ws rule: identifiers.induct) auto

lemma identifiers_map_WId [simp]: "identifiers (map WId xs) = xs"
  by (induction xs) simp_all

lemma identifiers_update_Undefined:
  "distinct (identifiers ws) \<Longrightarrow> distinct (identifiers (ws[i := Undefined]))"
proof (induction ws arbitrary: i rule: identifiers.induct)
  case 1
  then show ?case by simp
next
  case (2 ws)
  then show ?case by (cases i) simp_all
next
  case (3 s ws)
  show ?case
  proof (cases i)
    case 0
    with 3 show ?thesis by simp
  next
    case (Suc j)
    have "set (ws[j := Undefined]) \<subseteq> insert Undefined (set ws)"
      by (rule set_update_subset_insert)
    with 3 Suc show ?thesis by auto
  qed
qed

text \<open>Distinct identifiers, read off the multiset of the elements.\<close>

lemma distinct_identifiers_count:
  "distinct (identifiers ws) \<longleftrightarrow> (\<forall>s. count (mset ws) (WId s) \<le> 1)"
proof (induction ws rule: identifiers.induct)
  case 1
  show ?case by simp
next
  case (2 ws)
  then show ?case by simp
next
  case (3 s ws)
  show ?case
  proof
    assume d: "distinct (identifiers (WId s # ws))"
    then have "WId s \<notin> set ws"
      by simp
    then have "count (mset ws) (WId s) = 0"
      by (simp add: count_eq_zero_iff)
    with d 3 show "\<forall>t. count (mset (WId s # ws)) (WId t) \<le> 1"
      by auto
  next
    assume c: "\<forall>t. count (mset (WId s # ws)) (WId t) \<le> 1"
    then have "count (mset (WId s # ws)) (WId s) \<le> 1"
      by blast
    then have "count (mset ws) (WId s) = 0"
      by simp
    then have "WId s \<notin> set ws"
      by (simp add: count_eq_zero_iff)
    moreover have "\<forall>t. count (mset ws) (WId t) \<le> 1"
    proof
      fix t
      from c have "count (mset (WId s # ws)) (WId t) \<le> 1"
        by blast
      moreover have "count (mset ws) (WId t) \<le> count (mset (WId s # ws)) (WId t)"
        by simp
      ultimately show "count (mset ws) (WId t) \<le> 1"
        by (rule order_trans [rotated])
    qed
    ultimately show "distinct (identifiers (WId s # ws))"
      using 3 by simp
  qed
qed

section \<open>Each mutator keeps the identifiers distinct\<close>

lemma moveWidget_no_dup:
  assumes "no_duplicate_ids (activeWidgets a)"
  shows "no_duplicate_ids (activeWidgets (moveWidget index d a))"
proof -
  define ws where "ws = activeWidgets a"
  define t where "t = targetIndex index d"
  have dst: "distinct (identifiers ws)"
    using assms by (simp add: no_duplicate_ids_def ws_def)
  show ?thesis
  proof (cases "0 \<le> t \<and> t < int (length ws)")
    case False
    then have "activeWidgets (moveWidget index d a) = ws"
      unfolding activeWidgets_moveWidget Let_def ws_def t_def by (simp only: if_False)
    then show ?thesis
      using assms by (simp add: ws_def)
  next
    case True
    then have res: "activeWidgets (moveWidget index d a)
                      = js_set (js_set ws index (js_get ws t)) t (js_get ws index)"
      by (simp add: activeWidgets_moveWidget Let_def ws_def t_def)
    have pos: "0 < length ws"
      using True by auto
    have "(0 \<le> index \<and> index < int (length ws)) \<or> (index = - 1 \<and> t = 0)
            \<or> (index = int (length ws) \<and> t = int (length ws) - 1)"
      using True unfolding t_def targetIndex_def by (cases d) auto
    then consider (inside) "0 \<le> index" "index < int (length ws)"
      | (before) "index = - 1" "t = 0"
      | (after) "index = int (length ws)" "t = int (length ws) - 1"
      by blast
    then show ?thesis
    proof cases
      case inside
      then have "js_set (js_set ws index (js_get ws t)) t (js_get ws index)
                   = ws[nat index := ws ! nat t, nat t := ws ! nat index]"
        using True by (simp add: swap_in_range)
      moreover have "mset (ws[nat index := ws ! nat t, nat t := ws ! nat index]) = mset ws"
        using inside True by (intro mset_swap) auto
      ultimately show ?thesis
        using dst res by (simp add: no_duplicate_ids_def distinct_identifiers_count)
    next
      case before
      then have "js_set (js_set ws index (js_get ws t)) t (js_get ws index) = ws[0 := Undefined]"
        using pos by (simp add: swap_index_minus_one)
      then show ?thesis
        using dst res by (simp add: no_duplicate_ids_def identifiers_update_Undefined)
    next
      case after
      then have eq: "js_set (js_set ws index (js_get ws t)) t (js_get ws index)
                       = butlast ws @ [Undefined, last ws]"
        using pos by (simp add: swap_index_length)
      have "identifiers (butlast ws @ [Undefined, last ws]) = identifiers (butlast ws @ [last ws])"
        by simp
      also have "butlast ws @ [last ws] = ws"
        using pos by simp
      finally show ?thesis
        using dst res eq by (simp add: no_duplicate_ids_def)
    qed
  qed
qed

lemma removeWidget_no_dup:
  "no_duplicate_ids (activeWidgets a) \<Longrightarrow> no_duplicate_ids (activeWidgets (removeWidget ident a))"
  by (simp add: no_duplicate_ids_def activeWidgets_removeWidget identifiers_filter)

lemma addWidget_no_dup:
  "no_duplicate_ids (activeWidgets a) \<Longrightarrow> no_duplicate_ids (activeWidgets (addWidget ident a))"
  by (simp add: no_duplicate_ids_def activeWidgets_addWidget)

lemma apply_operation_no_dup:
  "no_duplicate_ids (activeWidgets a) \<Longrightarrow> no_duplicate_ids (activeWidgets (apply_operation x a))"
  by (cases x) (simp_all add: moveWidget_no_dup removeWidget_no_dup addWidget_no_dup)

section \<open>A move whose index addresses no element\<close>

text \<open>
  The guard of \<open>moveWidget\<close> looks at the target index only. With index \<open>-1\<close> and
  direction \<open>'right'\<close> the first element is overwritten by \<open>undefined\<close>; with the length
  as index and direction \<open>'left'\<close> the array grows by one: \<open>undefined\<close> takes the place of
  the last element, which moves behind it. The buttons of the interface pass the position
  of a rendered element, so neither call comes from there.
\<close>

lemma moveWidget_index_outside:
  assumes "activeWidgets a \<noteq> []"
  shows "activeWidgets (moveWidget (- 1) Right a) = (activeWidgets a)[0 := Undefined]"
    and "activeWidgets (moveWidget (int (length (activeWidgets a))) Left a)
           = butlast (activeWidgets a) @ [Undefined, last (activeWidgets a)]"
proof -
  have pos: "0 < length (activeWidgets a)"
    using assms by simp
  show "activeWidgets (moveWidget (- 1) Right a) = (activeWidgets a)[0 := Undefined]"
    using pos by (simp add: activeWidgets_moveWidget targetIndex_def swap_index_minus_one)
  show "activeWidgets (moveWidget (int (length (activeWidgets a))) Left a)
           = butlast (activeWidgets a) @ [Undefined, last (activeWidgets a)]"
    using pos by (simp add: activeWidgets_moveWidget targetIndex_def swap_index_length Let_def)
qed

text \<open>
  \<open>undefined\<close> is not an identifier, and it can stand in a layout more than once.
\<close>

lemma undefined_can_repeat:
  "activeWidgets (apply_operations [MoveAdjacent 2 Left, MoveAdjacent (- 1) Right]
      (a\<lparr>activeWidgets := [WId (js ''w-ai''), WId (js ''w-timer'')]\<rparr>))
   = [Undefined, Undefined, WId (js ''w-timer'')]"
  by (simp add: apply_operations_def activeWidgets_moveWidget targetIndex_def js_get_def
      js_set_def)

section \<open>Writing a layout and reading it back\<close>

text \<open>Each of the sixteen digits that \<open>hex_digit\<close> writes is read back as its value.\<close>

lemma hex_table: "list_all (\<lambda>n. hex_value (hex_digit n) = Some n) [0..<16]"
  by code_simp

lemma hex_value_hex_digit:
  assumes "n < 16"
  shows "hex_value (hex_digit n) = Some n"
  using hex_table assms by (simp add: list_all_iff)

lemma hex_digits_value:
  fixes n :: nat
  shows "((n div 4096 * 16 + n div 256 mod 16) * 16 + n div 16 mod 16) * 16 + n mod 16 = n"
proof -
  have a: "n div 256 = n div 16 div 16" and b: "n div 4096 = n div 16 div 16 div 16"
    by (simp_all add: div_mult2_eq)
  have "n div 16 div 16 div 16 * 16 + n div 16 div 16 mod 16 = n div 16 div 16"
    by simp
  moreover have "n div 16 div 16 * 16 + n div 16 mod 16 = n div 16"
    by simp
  moreover have "n div 16 * 16 + n mod 16 = n"
    by simp
  ultimately show ?thesis
    unfolding a b by simp
qed

lemma hex4_UnicodeEscape:
  "hex4 (hex_digit (unat c div 4096)) (hex_digit (unat c div 256 mod 16))
        (hex_digit (unat c div 16 mod 16)) (hex_digit (unat c mod 16)) = Some c"
proof -
  have "unat c < 65536"
    using unsigned_less [of c, where 'a = nat] by simp
  then have d1: "unat c div 4096 < 16"
    by arith
  have v1: "hex_value (hex_digit (unat c div 4096)) = Some (unat c div 4096)"
    using d1 by (rule hex_value_hex_digit)
  have v2: "hex_value (hex_digit (unat c div 256 mod 16)) = Some (unat c div 256 mod 16)"
    by (rule hex_value_hex_digit) simp
  have v3: "hex_value (hex_digit (unat c div 16 mod 16)) = Some (unat c div 16 mod 16)"
    by (rule hex_value_hex_digit) simp
  have v4: "hex_value (hex_digit (unat c mod 16)) = Some (unat c mod 16)"
    by (rule hex_value_hex_digit) simp
  have "hex4 (hex_digit (unat c div 4096)) (hex_digit (unat c div 256 mod 16))
        (hex_digit (unat c div 16 mod 16)) (hex_digit (unat c mod 16))
        = Some (of_nat (((unat c div 4096 * 16 + unat c div 256 mod 16) * 16
                          + unat c div 16 mod 16) * 16 + unat c mod 16))"
    unfolding hex4_def v1 v2 v3 v4 by (simp only: prod.case option.case)
  also have "\<dots> = Some (of_nat (unat c))"
    by (simp only: hex_digits_value)
  finally show ?thesis
    by simp
qed

text \<open>The four moves of the string lexer, one equation each.\<close>

lemma lex_string_quote: "lex_string (0x22 # rest) acc = Some (rev acc, rest)"
  by simp

lemma lex_string_unicode:
  "hex4 h1 h2 h3 h4 = Some u \<Longrightarrow>
   lex_string (0x5C # 0x75 # h1 # h2 # h3 # h4 # rest) acc = lex_string rest (u # acc)"
  by simp

lemma lex_string_escape:
  "unescape e = Some u \<Longrightarrow> e \<noteq> 0x75 \<Longrightarrow>
   lex_string (0x5C # e # rest) acc = lex_string rest (u # acc)"
  by simp

lemma lex_string_plain:
  "c \<noteq> 0x22 \<Longrightarrow> c \<noteq> 0x5C \<Longrightarrow> \<not> c < 0x20 \<Longrightarrow>
   lex_string (c # rest) acc = lex_string rest (c # acc)"
  by simp

text \<open>What \<open>QuoteJSONString\<close> writes for a code unit, the lexer reads as that code unit.\<close>

lemma lex_string_UnicodeEscape:
  "lex_string (UnicodeEscape c @ rest) acc = lex_string rest (c # acc)"
  unfolding UnicodeEscape_def Let_def
  by (simp only: append_Cons append_Nil lex_string_unicode [OF hex4_UnicodeEscape])

lemma lex_string_quote_unit:
  "lex_string (quote_unit c @ rest) acc = lex_string rest (c # acc)"
proof -
  consider "c = 0x08" | "c = 0x09" | "c = 0x0A" | "c = 0x0C" | "c = 0x0D" | "c = 0x22"
    | "c = 0x5C"
    | "c \<noteq> 0x08" "c \<noteq> 0x09" "c \<noteq> 0x0A" "c \<noteq> 0x0C" "c \<noteq> 0x0D" "c \<noteq> 0x22" "c \<noteq> 0x5C"
    by blast
  then show ?thesis
  proof cases
    case 8
    show ?thesis
    proof (cases "c < 0x20")
      case True
      with 8 have "quote_unit c = UnicodeEscape c"
        by (simp add: quote_unit_def)
      then show ?thesis
        by (simp only: lex_string_UnicodeEscape)
    next
      case False
      with 8 have "quote_unit c = [c]"
        by (simp add: quote_unit_def)
      moreover have "lex_string (c # rest) acc = lex_string rest (c # acc)"
        using 8(6,7) False by (rule lex_string_plain)
      ultimately show ?thesis
        by (simp only: append_Cons append_Nil)
    qed
  qed (simp_all add: quote_unit_def unescape_def)
qed

lemma surrogate_plain:
  assumes "is_leading_surrogate c \<or> is_trailing_surrogate c"
  shows "c \<noteq> 0x22" "c \<noteq> 0x5C" "\<not> c < 0x20"
  using assms
  by (auto simp: is_leading_surrogate_def is_trailing_surrogate_def word_le_nat_alt word_less_nat_alt)

lemma lex_string_surrogate:
  assumes "is_leading_surrogate c \<or> is_trailing_surrogate c"
  shows "lex_string (c # rest) acc = lex_string rest (c # acc)"
  using surrogate_plain [OF assms] by (rule lex_string_plain)

lemma lex_string_quote_units:
  "lex_string (quote_units s @ 0x22 # rest) acc = Some (rev acc @ s, rest)"
proof (induction s arbitrary: acc rule: quote_units.induct)
  case 1
  show ?case
    by (simp only: quote_units.simps append_Nil lex_string_quote append_Nil2)
next
  case (2 c)
  have "lex_string (quote_units [c] @ 0x22 # rest) acc = lex_string (0x22 # rest) (c # acc)"
    by (simp add: lex_string_UnicodeEscape lex_string_quote_unit del: lex_string.simps)
  then show ?case
    by (simp only: lex_string_quote) simp
next
  case (3 c d cs)
  show ?case
  proof (cases "is_leading_surrogate c")
    case lead: True
    show ?thesis
    proof (cases "is_trailing_surrogate d")
      case True
      have "lex_string (quote_units (c # d # cs) @ 0x22 # rest) acc
              = lex_string (quote_units cs @ 0x22 # rest) (d # c # acc)"
        using lead True by (simp add: lex_string_surrogate del: lex_string.simps)
      then show ?thesis
        using 3(1) [OF lead True, of "d # c # acc"] by simp
    next
      case False
      have "lex_string (quote_units (c # d # cs) @ 0x22 # rest) acc
              = lex_string (quote_units (d # cs) @ 0x22 # rest) (c # acc)"
        using lead False by (simp add: lex_string_UnicodeEscape del: lex_string.simps)
      then show ?thesis
        using 3(2) [OF lead False, of "c # acc"] by simp
    qed
  next
    case nolead: False
    show ?thesis
    proof (cases "is_trailing_surrogate c")
      case True
      have "lex_string (quote_units (c # d # cs) @ 0x22 # rest) acc
              = lex_string (quote_units (d # cs) @ 0x22 # rest) (c # acc)"
        using nolead True by (simp add: lex_string_UnicodeEscape del: lex_string.simps)
      then show ?thesis
        using 3(3) [OF nolead True, of "c # acc"] by simp
    next
      case False
      have "lex_string (quote_units (c # d # cs) @ 0x22 # rest) acc
              = lex_string (quote_units (d # cs) @ 0x22 # rest) (c # acc)"
        using nolead False by (simp add: lex_string_quote_unit del: lex_string.simps)
      then show ?thesis
        using 3(4) [OF nolead False, of "c # acc"] by simp
    qed
  qed
qed

text \<open>The tokens of a serialised layout.\<close>

lemma lex_serialize_slot:
  "lex (serialize_slot w @ rest) = map_option (Cons (slot_token w)) (lex rest)"
proof (cases w)
  case Undefined
  then show ?thesis
    by (simp add: js_def is_whitespace_def is_digit_def)
next
  case (WId s)
  have "lex (0x22 # quote_units s @ 0x22 # rest) = map_option (Cons (TString s)) (lex rest)"
    by (simp add: is_whitespace_def lex_string_quote_units del: lex_string.simps)
  then show ?thesis
    using WId by (simp add: QuoteJSONString_def)
qed

lemma lex_comma: "lex (0x2C # rest) = map_option (Cons TComma) (lex rest)"
  by (simp add: is_whitespace_def)

lemma lex_join_comma:
  "lex (join_comma (map serialize_slot ws) @ rest)
     = map_option (append (separated (map slot_token ws))) (lex rest)"
proof (induction ws rule: induct_list012)
  case 1
  show ?case
    by (simp add: option.map_ident)
next
  case (2 w)
  show ?case
    by (simp add: lex_serialize_slot del: lex.simps serialize_slot.simps)
next
  case (3 w v ws)
  have "lex (join_comma (map serialize_slot (w # v # ws)) @ rest)
          = lex (serialize_slot w @ 0x2C # join_comma (map serialize_slot (v # ws)) @ rest)"
    by simp
  also have "\<dots> = map_option (Cons (slot_token w))
                      (map_option (Cons TComma)
                         (lex (join_comma (map serialize_slot (v # ws)) @ rest)))"
    by (simp only: lex_serialize_slot lex_comma)
  also have "\<dots> = map_option (Cons (slot_token w))
                      (map_option (Cons TComma)
                         (map_option (append (separated (map slot_token (v # ws)))) (lex rest)))"
    by (simp only: 3(2))
  also have "\<dots> = map_option (append (separated (map slot_token (w # v # ws)))) (lex rest)"
    by (cases "lex rest") simp_all
  finally show ?case .
qed

lemma lex_JSON_stringify:
  "lex (JSON_stringify ws) = Some (TLBracket # separated (map slot_token ws) @ [TRBracket])"
proof -
  have "lex (JSON_stringify ws) = map_option (Cons TLBracket)
          (lex (join_comma (map serialize_slot ws) @ [0x5D]))"
    by (simp add: JSON_stringify_def is_whitespace_def)
  also have "lex (join_comma (map serialize_slot ws) @ [0x5D])
               = map_option (append (separated (map slot_token ws))) (lex [0x5D])"
    by (rule lex_join_comma)
  also have "lex [0x5D] = Some [TRBracket]"
    by (simp add: is_whitespace_def)
  finally show ?thesis
    by simp
qed

text \<open>The automaton on the tokens of a serialised layout.\<close>

lemma step_element:
  assumes "m = ExpectValue \<or> m = ExpectValueOrEnd"
  shows "step m (slot_token w) (FArray es # st)
           = Some (ExpectCommaOrEnd, FArray (json_of_slot w # es) # st)"
  using assms by (cases w) auto

lemma run_elements:
  assumes "m = ExpectValue \<or> m = ExpectValueOrEnd"
  shows "run m (FArray es # st) (separated (map slot_token (w # ws)) @ TRBracket # ts)
           = (case complete (JArray (rev es @ map json_of_slot (w # ws))) st of
                None \<Rightarrow> None
              | Some (m', st') \<Rightarrow> run m' st' ts)"
  using assms
proof (induction ws arbitrary: w es m)
  case Nil
  then show ?case
    by (simp add: step_element del: step.simps) simp
next
  case (Cons v ws)
  have "run m (FArray es # st) (separated (map slot_token (w # v # ws)) @ TRBracket # ts)
          = run ExpectValue (FArray (json_of_slot w # es) # st)
              (separated (map slot_token (v # ws)) @ TRBracket # ts)"
    using Cons.prems by (simp add: step_element del: step.simps) simp
  also have "\<dots> = (case complete (JArray (rev (json_of_slot w # es) @ map json_of_slot (v # ws))) st of
                None \<Rightarrow> None
              | Some (m', st') \<Rightarrow> run m' st' ts)"
    by (rule Cons.IH) simp
  finally show ?case
    by simp
qed

lemma run_array_tokens:
  "run ExpectValue [] (TLBracket # separated (map slot_token ws) @ [TRBracket])
     = Some (JArray (map json_of_slot ws))"
proof (cases ws)
  case Nil
  then show ?thesis by simp
next
  case (Cons w ws')
  have "run ExpectValue [] (TLBracket # separated (map slot_token (w # ws')) @ [TRBracket])
          = run ExpectValueOrEnd [FArray []] (separated (map slot_token (w # ws')) @ [TRBracket])"
    by simp
  also have "\<dots> = Some (JArray (map json_of_slot (w # ws')))"
    using run_elements [of ExpectValueOrEnd "[]" "[]" w ws' "[]"] by simp
  finally show ?thesis
    using Cons by simp
qed

lemma JSON_parse_stringify:
  "JSON_parse (JSON_stringify ws) = Inr (JArray (map json_of_slot ws))"
  by (simp add: JSON_parse_def lex_JSON_stringify run_array_tokens del: run.simps)

text \<open>Loading what the effect has written.\<close>

lemma JSON_stringify_nonempty: "JSON_stringify ws \<noteq> []"
  by (simp add: JSON_stringify_def)

lemma load_stored:
  "ls (js ''dashboard_widgets'') = Some saved \<Longrightarrow> saved \<noteq> [] \<Longrightarrow> load ls = JSON_parse saved"
  by (simp add: load_def)

lemma load_absent:
  "ls (js ''dashboard_widgets'') = None \<Longrightarrow> load ls = Inr (JArray (map JString default_widgets))"
  by (simp add: load_def)

lemma load_persist:
  "load (localStorage (persist a)) = Inr (JArray (map json_of_slot (activeWidgets a)))"
  by (simp add: persist_def load_def JSON_stringify_nonempty JSON_parse_stringify)

lemma strings_of_Some: "strings_of vs = Some xs \<Longrightarrow> vs = map JString xs"
  by (induction vs arbitrary: xs rule: strings_of.induct) auto

lemma as_layout_Some:
  assumes "as_layout v = Some ws"
  shows "v = JArray (map json_of_slot ws)"
proof (cases v)
  case (JArray vs)
  with assms obtain xs where "strings_of vs = Some xs" and "ws = map WId xs"
    by auto
  then show ?thesis
    using JArray by (simp add: strings_of_Some comp_def)
qed (use assms in simp_all)

lemma strings_of_map_JString [simp]: "strings_of (map JString xs) = Some xs"
  by (induction xs) simp_all

text \<open>
  Every handler that changes the layout leaves the storage in step with it, and so does
  the start of a session.
\<close>

lemma localStorage_setActiveWidgets:
  "localStorage (setActiveWidgets v a) (js ''dashboard_widgets'') = Some (JSON_stringify v)"
  by (simp add: setActiveWidgets_def persist_def)

lemma in_sync_setActiveWidgets [simp]: "in_sync (setActiveWidgets v a)"
  by (simp add: in_sync_def setActiveWidgets_def persist_def)

lemma in_sync_persist [simp]: "in_sync (persist a)"
  by (simp add: in_sync_def persist_def)

lemma in_sync_showAddModal [simp]: "in_sync (a\<lparr>showAddModal := b\<rparr>) = in_sync a"
  by (simp add: in_sync_def)

lemma in_sync_apply_operation: "in_sync a \<Longrightarrow> in_sync (apply_operation x a)"
  by (cases x) (simp_all add: addWidget_def removeWidget_def moveWidget_def Let_def)

lemma in_sync_apply_operations: "in_sync a \<Longrightarrow> in_sync (apply_operations ops a)"
  unfolding apply_operations_def
  by (induction ops arbitrary: a) (simp_all add: in_sync_apply_operation)

lemma App_start_in_sync: "App_start ls = Started a \<Longrightarrow> in_sync a"
  by (auto simp: App_start_def split: sum.splits option.splits if_splits)

lemma load_in_sync:
  "in_sync a \<Longrightarrow> load (localStorage a) = Inr (JArray (map json_of_slot (activeWidgets a)))"
  by (simp add: in_sync_def load_def JSON_stringify_nonempty JSON_parse_stringify)

lemma stringify_default:
  "JSON_stringify (map WId default_widgets)
     = js ''[\"w-ai\",\"w-stats\",\"w-activity\",\"w-saved\",\"w-timer\"]''"
  by (simp add: JSON_stringify_def default_widgets_def QuoteJSONString_def js_def
      is_leading_surrogate_def is_trailing_surrogate_def quote_unit_def)

lemma as_layout_default: "as_layout (JArray (map JString default_widgets)) = Some (map WId default_widgets)"
  by simp

lemma App_start_empty:
  "App_start Map.empty = Started (persist default_app)"
  by (simp add: App_start_def load_def default_app_def)

section \<open>Rendering and the insight widget: auxiliary facts\<close>

lemma length_render_grid [simp]: "length (render_grid a) = length (activeWidgets a)"
  by (simp add: render_grid_def)

lemma nth_render_grid:
  "i < length (activeWidgets a) \<Longrightarrow>
   render_grid a ! i = render_widget (editMode a) i (activeWidgets a ! i)"
  by (simp add: render_grid_def nth_enumerate_eq)

lemma App_start_layout:
  assumes "load ls = Inr v" "as_layout v = Some ws"
  shows "App_start ls = Started (persist \<lparr>activeWidgets = ws, editMode = False,
           showAddModal = False, localStorage = ls\<rparr>)"
  using assms by (simp add: App_start_def)

lemma messages_differ: "NOT_CONFIGURED \<noteq> CALL_FAILED"
  by (simp add: NOT_CONFIGURED_def CALL_FAILED_def)

lemma handle_Refresh_key:
  "truthy API_KEY \<Longrightarrow>
   handle API_KEY (Refresh Issued) w = w\<lparr>loading := True, in_flight := Suc (in_flight w)\<rparr>"
  by (simp add: generateBriefing_def perform_all_def)

lemma refreshes_in_flight:
  assumes "truthy API_KEY"
  shows "fold (handle API_KEY) (replicate n (Refresh Issued)) w
           = w\<lparr>loading := (if n = 0 then loading w else True), in_flight := in_flight w + n\<rparr>"
proof (induction n arbitrary: w)
  case 0
  show ?case by (simp del: fold_replicate)
next
  case (Suc n)
  have "fold (handle API_KEY) (replicate (Suc n) (Refresh Issued)) w
          = fold (handle API_KEY) (replicate n (Refresh Issued)) (handle API_KEY (Refresh Issued) w)"
    by (simp only: replicate.simps fold.simps comp_def)
  also have "\<dots> = fold (handle API_KEY) (replicate n (Refresh Issued))
                      (w\<lparr>loading := True, in_flight := Suc (in_flight w)\<rparr>)"
    by (simp only: handle_Refresh_key [OF assms])
  finally show ?case
    by (simp only: Suc.IH) simp
qed

section \<open>The claims on the layout mutators\<close>

text \<open>
  C2. From a layout with no duplicate identifier, every finite sequence of \<open>append\<close>,
  \<open>remove\<close> and \<open>moveAdjacent\<close> operations, whatever their arguments (any identifier,
  any integral index, either direction), leads to a layout with no duplicate identifier.
  The identifiers are the strings of the layout: a move whose index addresses no element
  writes \<open>undefined\<close>, never a second copy of a string.
\<close>

theorem no_duplicates_preserved:
  "no_duplicate_ids (activeWidgets a) \<Longrightarrow>
   no_duplicate_ids (activeWidgets (apply_operations ops a))"
  unfolding apply_operations_def
  by (induction ops arbitrary: a) (simp_all add: apply_operation_no_dup)

theorem no_duplicates_preserved_witness:
  "no_duplicate_ids (activeWidgets default_app) \<and>
   no_duplicate_ids (activeWidgets (apply_operations
      [MoveAdjacent 1 Right, Remove (js ''w-stats''), Append (js ''w-stats''),
       Append (js ''w-ai''), MoveAdjacent 5 Left, MoveAdjacent (- 1) Right] default_app))"
proof -
  have h: "no_duplicate_ids (activeWidgets default_app)"
    by (simp add: no_duplicate_ids_def default_app_def default_widgets_def)
  show ?thesis
    using h no_duplicates_preserved [OF h] by simp
qed

text \<open>
  C5. The end-to-end scenario: from the default layout, \<open>moveAdjacent(1, after)\<close>, then
  \<open>remove("w-stats")\<close>, then \<open>append("w-stats")\<close> give the three layouts the
  specification lists.
\<close>

theorem scenario_default_move_remove_append:
  "let s0 = a\<lparr>activeWidgets := map WId default_widgets\<rparr>;
       s1 = moveWidget 1 Right s0;
       s2 = removeWidget (js ''w-stats'') s1;
       s3 = addWidget (js ''w-stats'') s2
   in activeWidgets s0
        = map WId (map js [''w-ai'', ''w-stats'', ''w-activity'', ''w-saved'', ''w-timer''])
    \<and> activeWidgets s1
        = map WId (map js [''w-ai'', ''w-activity'', ''w-stats'', ''w-saved'', ''w-timer''])
    \<and> activeWidgets s2
        = map WId (map js [''w-ai'', ''w-activity'', ''w-saved'', ''w-timer''])
    \<and> activeWidgets s3
        = map WId (map js [''w-ai'', ''w-activity'', ''w-saved'', ''w-timer'', ''w-stats''])"
  by (simp add: Let_def default_widgets_def activeWidgets_moveWidget targetIndex_def
      activeWidgets_removeWidget activeWidgets_addWidget js_get_def js_set_def)

text \<open>
  C6. \<open>moveAdjacent(0, before)\<close> and \<open>moveAdjacent(length - 1, after)\<close> leave the state as
  it is; so does every call, with any integral index, whose target index is outside
  \<open>[0, length)\<close>; a call whose index and target index both address an element
  exchanges the two elements and changes nothing else.
\<close>

theorem moveWidget_boundary_noop_and_swap:
  "moveWidget 0 Left a = a
   \<and> moveWidget (int (length (activeWidgets a)) - 1) Right a = a
   \<and> (targetIndex index d < 0 \<or> int (length (activeWidgets a)) \<le> targetIndex index d
        \<longrightarrow> moveWidget index d a = a)
   \<and> (0 \<le> index \<and> index < int (length (activeWidgets a))
        \<and> 0 \<le> targetIndex index d \<and> targetIndex index d < int (length (activeWidgets a))
        \<longrightarrow> activeWidgets (moveWidget index d a)
            = (activeWidgets a)[nat index := activeWidgets a ! nat (targetIndex index d),
                                nat (targetIndex index d) := activeWidgets a ! nat index])"
proof (intro conjI impI)
  show "moveWidget 0 Left a = a"
    by (simp add: moveWidget_def targetIndex_def)
  show "moveWidget (int (length (activeWidgets a)) - 1) Right a = a"
    by (simp add: moveWidget_def targetIndex_def)
  show "moveWidget index d a = a"
    if "targetIndex index d < 0 \<or> int (length (activeWidgets a)) \<le> targetIndex index d"
    using that by (auto simp: moveWidget_def Let_def)
  show "activeWidgets (moveWidget index d a)
          = (activeWidgets a)[nat index := activeWidgets a ! nat (targetIndex index d),
                              nat (targetIndex index d) := activeWidgets a ! nat index]"
    if "0 \<le> index \<and> index < int (length (activeWidgets a))
        \<and> 0 \<le> targetIndex index d \<and> targetIndex index d < int (length (activeWidgets a))"
    using that by (simp add: activeWidgets_moveWidget Let_def swap_in_range)
qed

theorem moveWidget_boundary_noop_and_swap_witness:
  "moveWidget 0 Left default_app = default_app
   \<and> moveWidget 4 Right default_app = default_app
   \<and> targetIndex 7 Right = 8 \<and> moveWidget 7 Right default_app = default_app
   \<and> targetIndex 3 Left = 2
   \<and> activeWidgets (moveWidget 3 Left default_app)
       = map WId (map js [''w-ai'', ''w-stats'', ''w-saved'', ''w-activity'', ''w-timer''])"
proof -
  have len: "int (length (activeWidgets default_app)) = 5"
    by (simp add: default_app_def default_widgets_def)
  have ws: "activeWidgets default_app
              = map WId (map js [''w-ai'', ''w-stats'', ''w-activity'', ''w-saved'', ''w-timer''])"
    by (simp add: default_app_def default_widgets_def)
  have t7: "targetIndex 7 Right = 8" and t3: "targetIndex 3 Left = 2"
    by (simp_all add: targetIndex_def)
  note c7 = moveWidget_boundary_noop_and_swap [of default_app 7 Right]
  note c3 = moveWidget_boundary_noop_and_swap [of default_app 3 Left]
  have "moveWidget 0 Left default_app = default_app"
    using c7 by blast
  moreover have "moveWidget 4 Right default_app = default_app"
    using c7 len by simp
  moreover have "moveWidget 7 Right default_app = default_app"
    using c7 len t7 by simp
  moreover have "activeWidgets (moveWidget 3 Left default_app)
       = map WId (map js [''w-ai'', ''w-stats'', ''w-saved'', ''w-activity'', ''w-timer''])"
    using c3 len t3 by (simp add: ws)
  ultimately show ?thesis
    using t7 t3 by simp
qed

text \<open>
  C7. \<open>append(id)\<close> puts \<open>id\<close> at the end of a layout that does not hold it and leaves a
  layout that holds it as it is (nothing but the closing of the add dialog happens);
  appending twice is appending once, and removing twice is removing once.
\<close>

theorem append_and_remove_idempotent:
  "(\<not> includes_id (activeWidgets a) ident
      \<longrightarrow> activeWidgets (addWidget ident a) = activeWidgets a @ [WId ident])
   \<and> (includes_id (activeWidgets a) ident
      \<longrightarrow> addWidget ident a = a\<lparr>showAddModal := False\<rparr>)
   \<and> addWidget ident (addWidget ident a) = addWidget ident a
   \<and> removeWidget ident (removeWidget ident a) = removeWidget ident a"
proof (intro conjI impI)
  show "activeWidgets (addWidget ident a) = activeWidgets a @ [WId ident]"
    if "\<not> includes_id (activeWidgets a) ident"
    using that by (simp add: addWidget_def)
  show "addWidget ident a = a\<lparr>showAddModal := False\<rparr>"
    if "includes_id (activeWidgets a) ident"
    using that by (simp add: addWidget_def)
  show "addWidget ident (addWidget ident a) = addWidget ident a"
    by (simp add: addWidget_def includes_id_def setActiveWidgets_def persist_def)
  show "removeWidget ident (removeWidget ident a) = removeWidget ident a"
    by (simp add: removeWidget_def setActiveWidgets_def persist_def)
qed

theorem append_and_remove_idempotent_witness:
  "\<not> includes_id (activeWidgets default_app) (js ''w-weather'')
   \<and> activeWidgets (addWidget (js ''w-weather'') default_app)
       = activeWidgets default_app @ [WId (js ''w-weather'')]
   \<and> includes_id (activeWidgets default_app) (js ''w-saved'')
   \<and> addWidget (js ''w-saved'') default_app = default_app\<lparr>showAddModal := False\<rparr>"
proof -
  have absent: "\<not> includes_id (activeWidgets default_app) (js ''w-weather'')"
    by (simp add: includes_id_def default_app_def default_widgets_def)
  have present: "includes_id (activeWidgets default_app) (js ''w-saved'')"
    by (simp add: includes_id_def default_app_def default_widgets_def)
  show ?thesis
    using absent present
      append_and_remove_idempotent [of default_app "js ''w-weather''"]
      append_and_remove_idempotent [of default_app "js ''w-saved''"]
    by simp
qed

text \<open>
  C10. \<open>remove(id)\<close> deletes every occurrence of \<open>id\<close>, also from a layout that holds it
  more than once: \<open>id\<close> is absent from the result, the result is a subsequence of the
  layout (the elements that stay keep their order), and every other element stays as
  often as it occurred.
\<close>

theorem removeWidget_removes_every_occurrence:
  "WId ident \<notin> set (activeWidgets (removeWidget ident a))
   \<and> subseq (activeWidgets (removeWidget ident a)) (activeWidgets a)
   \<and> mset (activeWidgets (removeWidget ident a))
       = filter_mset (\<lambda>w. w \<noteq> WId ident) (mset (activeWidgets a))"
  by (simp add: activeWidgets_removeWidget)

section \<open>The claims on loading and persisting\<close>

text \<open>
  C8. Round trip and persistence. In every state of a session that has started, the
  storage holds the serialisation of the current layout, whatever mutators have run, and
  loading it yields the layout again; a loaded sequence of identifiers that is persisted
  and loaded again is the same value; loading after the entry has been cleared yields
  the default five-element sequence.
\<close>

theorem persist_load_round_trip:
  "(App_start ls = Started a \<longrightarrow>
      localStorage (apply_operations ops a) (js ''dashboard_widgets'')
        = Some (JSON_stringify (activeWidgets (apply_operations ops a)))
      \<and> load (localStorage (apply_operations ops a))
        = Inr (JArray (map json_of_slot (activeWidgets (apply_operations ops a)))))
   \<and> (load ls = Inr v \<and> as_layout v = Some ws \<longrightarrow>
        load (localStorage (persist (b\<lparr>activeWidgets := ws, localStorage := ls\<rparr>))) = Inr v)
   \<and> load (ls(js ''dashboard_widgets'' := None)) = Inr (JArray (map JString default_widgets))"
proof (intro conjI impI)
  assume "App_start ls = Started a"
  then have s: "in_sync (apply_operations ops a)"
    by (intro in_sync_apply_operations App_start_in_sync)
  from s show "localStorage (apply_operations ops a) (js ''dashboard_widgets'')
        = Some (JSON_stringify (activeWidgets (apply_operations ops a)))"
    by (simp add: in_sync_def)
  from s show "load (localStorage (apply_operations ops a))
        = Inr (JArray (map json_of_slot (activeWidgets (apply_operations ops a))))"
    by (rule load_in_sync)
next
  assume "load ls = Inr v \<and> as_layout v = Some ws"
  then have "v = JArray (map json_of_slot ws)"
    by (simp add: as_layout_Some)
  then show "load (localStorage (persist (b\<lparr>activeWidgets := ws, localStorage := ls\<rparr>))) = Inr v"
    by (simp add: load_persist)
next
  show "load (ls(js ''dashboard_widgets'' := None)) = Inr (JArray (map JString default_widgets))"
    by (simp add: load_def)
qed

theorem persist_load_round_trip_witness:
  "App_start Map.empty = Started (persist default_app)
   \<and> localStorage (apply_operations [Remove (js ''w-stats'')] (persist default_app))
        (js ''dashboard_widgets'')
       = Some (js ''[\"w-ai\",\"w-activity\",\"w-saved\",\"w-timer\"]'')
   \<and> load (localStorage (apply_operations [Remove (js ''w-stats'')] (persist default_app)))
       = Inr (JArray (map JString (map js [''w-ai'', ''w-activity'', ''w-saved'', ''w-timer''])))
   \<and> load (stored ''[\"w-timer\", \"w-ai\"]'') = Inr (JArray [JString (js ''w-timer''), JString (js ''w-ai'')])
   \<and> as_layout (JArray [JString (js ''w-timer''), JString (js ''w-ai'')])
       = Some [WId (js ''w-timer''), WId (js ''w-ai'')]
   \<and> load (localStorage (persist (default_app\<lparr>activeWidgets := [WId (js ''w-timer''), WId (js ''w-ai'')],
                                                localStorage := stored ''[\"w-timer\", \"w-ai\"]''\<rparr>)))
       = Inr (JArray [JString (js ''w-timer''), JString (js ''w-ai'')])"
proof -
  have st: "App_start Map.empty = Started (persist default_app)"
    by (rule App_start_empty)
  have ws: "activeWidgets (apply_operations [Remove (js ''w-stats'')] (persist default_app))
              = map WId (map js [''w-ai'', ''w-activity'', ''w-saved'', ''w-timer''])"
    by (simp add: apply_operations_def activeWidgets_removeWidget persist_def default_app_def
        default_widgets_def)
  have str: "JSON_stringify (map WId (map js [''w-ai'', ''w-activity'', ''w-saved'', ''w-timer'']))
               = js ''[\"w-ai\",\"w-activity\",\"w-saved\",\"w-timer\"]''"
    by (simp add: JSON_stringify_def QuoteJSONString_def js_def
        is_leading_surrogate_def is_trailing_surrogate_def quote_unit_def)
  have ld: "load (stored ''[\"w-timer\", \"w-ai\"]'')
              = Inr (JArray [JString (js ''w-timer''), JString (js ''w-ai'')])"
    by (simp add: load_def stored_def JSON_parse_def js_def is_whitespace_def is_digit_def)
  have al: "as_layout (JArray [JString (js ''w-timer''), JString (js ''w-ai'')])
       = Some [WId (js ''w-timer''), WId (js ''w-ai'')]"
    by simp
  note rt1 = persist_load_round_trip [where ls = Map.empty and a = "persist default_app"
      and ops = "[Remove (js ''w-stats'')]"]
  note rt2 = persist_load_round_trip [where ls = "stored ''[\"w-timer\", \"w-ai\"]''"
      and v = "JArray [JString (js ''w-timer''), JString (js ''w-ai'')]"
      and ws = "[WId (js ''w-timer''), WId (js ''w-ai'')]" and b = default_app]
  from rt1 st have
    "localStorage (apply_operations [Remove (js ''w-stats'')] (persist default_app))
        (js ''dashboard_widgets'')
       = Some (JSON_stringify (activeWidgets
           (apply_operations [Remove (js ''w-stats'')] (persist default_app))))"
    and "load (localStorage (apply_operations [Remove (js ''w-stats'')] (persist default_app)))
       = Inr (JArray (map json_of_slot (activeWidgets
           (apply_operations [Remove (js ''w-stats'')] (persist default_app)))))"
    by blast+
  then have c1: "localStorage (apply_operations [Remove (js ''w-stats'')] (persist default_app))
        (js ''dashboard_widgets'')
       = Some (js ''[\"w-ai\",\"w-activity\",\"w-saved\",\"w-timer\"]'')"
    and c2: "load (localStorage (apply_operations [Remove (js ''w-stats'')] (persist default_app)))
       = Inr (JArray (map JString (map js [''w-ai'', ''w-activity'', ''w-saved'', ''w-timer''])))"
    unfolding ws str by simp_all
  from rt2 ld al have c3:
    "load (localStorage (persist (default_app\<lparr>activeWidgets := [WId (js ''w-timer''), WId (js ''w-ai'')],
                                                localStorage := stored ''[\"w-timer\", \"w-ai\"]''\<rparr>)))
       = Inr (JArray [JString (js ''w-timer''), JString (js ''w-ai'')])"
    by blast
  show ?thesis
    using st c1 c2 ld al c3 by (intro conjI)
qed

text \<open>
  C1 (as the specification states it, refuted). The load is claimed to return a sequence
  of identifiers for every state of the storage, the default one when the stored value
  is malformed. A stored text that is not JSON makes the load raise \<open>SyntaxError\<close>, and
  a stored JSON value that is not an array of strings is returned as it is.
\<close>

theorem load_malformed_counterexample:
  "load (stored ''[\"w-ai\",'') = Inl SyntaxError
   \<and> App_start (stored ''[\"w-ai\",'') = Raised SyntaxError
   \<and> load (stored ''{\"a\":1}'') = Inr (JObject [(js ''a'', JNumber (js ''1''))])
   \<and> as_layout (JObject [(js ''a'', JNumber (js ''1''))]) = None
   \<and> App_start (stored ''{\"a\":1}'') = Raised TypeError"
  by (simp add: App_start_def load_def stored_def JSON_parse_def js_def is_whitespace_def
      is_digit_def lex_number_def lex_integer_def lex_fraction_def lex_exponent_def)

text \<open>
  C1 (amended). The load returns the default sequence when the entry is absent or the
  empty string; it returns the stored sequence when the entry is the serialisation of a
  sequence of identifiers; for every other non-empty entry it is \<open>JSON.parse\<close> of the
  entry, with its value unchecked and its exception uncaught.
\<close>

theorem load_default_or_parse:
  "(ls (js ''dashboard_widgets'') = None \<or> ls (js ''dashboard_widgets'') = Some []
      \<longrightarrow> load ls = Inr (JArray (map JString default_widgets)))
   \<and> (ls (js ''dashboard_widgets'') = Some (JSON_stringify (map WId xs))
      \<longrightarrow> load ls = Inr (JArray (map JString xs)))
   \<and> (ls (js ''dashboard_widgets'') = Some saved \<and> saved \<noteq> []
      \<longrightarrow> load ls = JSON_parse saved)"
proof (intro conjI impI)
  assume "ls (js ''dashboard_widgets'') = None \<or> ls (js ''dashboard_widgets'') = Some []"
  then show "load ls = Inr (JArray (map JString default_widgets))"
    by (auto simp: load_def)
next
  assume "ls (js ''dashboard_widgets'') = Some (JSON_stringify (map WId xs))"
  then have "load ls = JSON_parse (JSON_stringify (map WId xs))"
    by (simp add: load_stored JSON_stringify_nonempty)
  then show "load ls = Inr (JArray (map JString xs))"
    by (simp add: JSON_parse_stringify comp_def)
next
  assume "ls (js ''dashboard_widgets'') = Some saved \<and> saved \<noteq> []"
  then show "load ls = JSON_parse saved"
    by (simp add: load_stored)
qed

theorem load_default_or_parse_witness:
  "load Map.empty = Inr (JArray (map JString default_widgets))
   \<and> stored ''[\"w-timer\",\"w-ai\"]'' (js ''dashboard_widgets'')
       = Some (JSON_stringify (map WId (map js [''w-timer'', ''w-ai''])))
   \<and> load (stored ''[\"w-timer\",\"w-ai\"]'') = Inr (JArray (map JString (map js [''w-timer'', ''w-ai''])))
   \<and> stored ''[\"w-ai\",'' (js ''dashboard_widgets'') = Some (js ''[\"w-ai\",'')
   \<and> js ''[\"w-ai\",'' \<noteq> []
   \<and> load (stored ''[\"w-ai\",'') = JSON_parse (js ''[\"w-ai\",'')
   \<and> JSON_parse (js ''[\"w-ai\",'') = Inl SyntaxError"
proof -
  have s1: "stored ''[\"w-timer\",\"w-ai\"]'' (js ''dashboard_widgets'')
       = Some (JSON_stringify (map WId (map js [''w-timer'', ''w-ai''])))"
    by (simp add: stored_def JSON_stringify_def QuoteJSONString_def js_def
        is_leading_surrogate_def is_trailing_surrogate_def quote_unit_def)
  have s2: "stored ''[\"w-ai\",'' (js ''dashboard_widgets'') = Some (js ''[\"w-ai\",'')"
    by (simp add: stored_def)
  have ne: "js ''[\"w-ai\",'' \<noteq> []"
    by (simp add: js_def)
  have p: "JSON_parse (js ''[\"w-ai\",'') = Inl SyntaxError"
    by (simp add: JSON_parse_def js_def is_whitespace_def is_digit_def)
  have e: "(Map.empty :: storage) (js ''dashboard_widgets'') = None"
    by simp
  from load_default_or_parse [of Map.empty] e
  have c1: "load Map.empty = Inr (JArray (map JString default_widgets))"
    by blast
  from load_default_or_parse [of "stored ''[\"w-timer\",\"w-ai\"]''" "map js [''w-timer'', ''w-ai'']"] s1
  have c2: "load (stored ''[\"w-timer\",\"w-ai\"]'')
              = Inr (JArray (map JString (map js [''w-timer'', ''w-ai''])))"
    by blast
  from load_default_or_parse [of "stored ''[\"w-ai\",''" _ "js ''[\"w-ai\",''"] s2 ne
  have c3: "load (stored ''[\"w-ai\",'') = JSON_parse (js ''[\"w-ai\",'')"
    by blast
  show ?thesis
    using c1 s1 c2 s2 ne c3 p by (intro conjI)
qed

section \<open>The claim on rendering\<close>

text \<open>
  C9. Rendering yields one entry for each element of the layout: \<open>null\<close> where the
  identifier does not resolve in the catalog, a container where it does. Nothing is taken
  out of the layout: rendering computes the grid from the state, the one effect that
  follows a render writes the whole layout to the storage, from where it loads again in
  full, and a session that starts from a stored sequence has that sequence as its
  layout, unresolved identifiers included.
\<close>

theorem unresolved_identifier_skipped_and_kept:
  "length (render_grid a) = length (activeWidgets a)
   \<and> (i < length (activeWidgets a) \<and> find_def (activeWidgets a ! i) = None
        \<longrightarrow> render_grid a ! i = None)
   \<and> (i < length (activeWidgets a) \<and> find_def (activeWidgets a ! i) = Some d
        \<longrightarrow> render_grid a ! i \<noteq> None)
   \<and> activeWidgets (persist a) = activeWidgets a
   \<and> load (localStorage (persist a)) = Inr (JArray (map json_of_slot (activeWidgets a)))
   \<and> (load ls = Inr v \<and> as_layout v = Some ws
        \<longrightarrow> (case App_start ls of
               Started s \<Rightarrow> activeWidgets s = ws \<and> load (localStorage s) = Inr v
             | _ \<Rightarrow> False))"
proof (intro conjI impI)
  show "length (render_grid a) = length (activeWidgets a)"
    by simp
  show "render_grid a ! i = None"
    if "i < length (activeWidgets a) \<and> find_def (activeWidgets a ! i) = None"
    using that by (simp add: nth_render_grid render_widget_def)
  show "render_grid a ! i \<noteq> None"
    if "i < length (activeWidgets a) \<and> find_def (activeWidgets a ! i) = Some d"
    using that by (simp add: nth_render_grid render_widget_def)
  show "activeWidgets (persist a) = activeWidgets a"
    by (simp add: persist_def)
  show "load (localStorage (persist a)) = Inr (JArray (map json_of_slot (activeWidgets a)))"
    by (rule load_persist)
  show "case App_start ls of
          Started s \<Rightarrow> activeWidgets s = ws \<and> load (localStorage s) = Inr v
        | _ \<Rightarrow> False"
    if "load ls = Inr v \<and> as_layout v = Some ws"
  proof -
    from that have l: "load ls = Inr v" and al: "as_layout v = Some ws"
      by blast+
    from al have v: "v = JArray (map json_of_slot ws)"
      by (rule as_layout_Some)
    from l al have "App_start ls = Started (persist \<lparr>activeWidgets = ws, editMode = False,
           showAddModal = False, localStorage = ls\<rparr>)"
      by (rule App_start_layout)
    then show ?thesis
      by (simp add: load_persist v) (simp add: persist_def)
  qed
qed

theorem unresolved_identifier_skipped_and_kept_witness:
  "find_def (activeWidgets stale_app ! 1) = None
   \<and> render_grid stale_app ! 1 = None
   \<and> find_def (activeWidgets stale_app ! 2)
       = Some \<lparr>id_w = js ''w-timer'', type_w = Timer, title = js ''Focus Timer'', colSpan = 1\<rparr>
   \<and> render_grid stale_app ! 2 \<noteq> None
   \<and> load (localStorage stale_app)
       = Inr (JArray [JString (js ''w-ai''), JString (js ''w-weather''), JString (js ''w-timer'')])
   \<and> as_layout (JArray [JString (js ''w-ai''), JString (js ''w-weather''), JString (js ''w-timer'')])
       = Some (activeWidgets stale_app)
   \<and> (case App_start (localStorage stale_app) of
         Started s \<Rightarrow> activeWidgets s = activeWidgets stale_app
           \<and> load (localStorage s)
               = Inr (JArray [JString (js ''w-ai''), JString (js ''w-weather''), JString (js ''w-timer'')])
       | _ \<Rightarrow> False)"
proof -
  have len: "1 < length (activeWidgets stale_app)" "2 < length (activeWidgets stale_app)"
    by (simp_all add: stale_app_def)
  have f1: "find_def (activeWidgets stale_app ! 1) = None"
    by (simp add: stale_app_def find_def_def AVAILABLE_WIDGETS_def)
  have f2: "find_def (activeWidgets stale_app ! 2)
       = Some \<lparr>id_w = js ''w-timer'', type_w = Timer, title = js ''Focus Timer'', colSpan = 1\<rparr>"
    by (simp add: stale_app_def find_def_def AVAILABLE_WIDGETS_def)
  have ld: "load (localStorage stale_app)
       = Inr (JArray [JString (js ''w-ai''), JString (js ''w-weather''), JString (js ''w-timer'')])"
    by (simp add: stale_app_def load_def stored_def JSON_parse_def js_def is_whitespace_def
        is_digit_def)
  have al: "as_layout (JArray [JString (js ''w-ai''), JString (js ''w-weather''), JString (js ''w-timer'')])
       = Some (activeWidgets stale_app)"
    by (simp add: stale_app_def)
  note t1 = unresolved_identifier_skipped_and_kept [where a = stale_app and i = 1]
  note t2 = unresolved_identifier_skipped_and_kept [where a = stale_app and i = 2
      and d = "\<lparr>id_w = js ''w-timer'', type_w = Timer, title = js ''Focus Timer'', colSpan = 1\<rparr>"
      and ls = "localStorage stale_app"
      and v = "JArray [JString (js ''w-ai''), JString (js ''w-weather''), JString (js ''w-timer'')]"
      and ws = "activeWidgets stale_app"]
  from t1 len f1 have c1: "render_grid stale_app ! 1 = None"
    by blast
  from t2 len f2 have c2: "render_grid stale_app ! 2 \<noteq> None"
    by blast
  from t2 ld al have c3: "case App_start (localStorage stale_app) of
         Started s \<Rightarrow> activeWidgets s = activeWidgets stale_app
           \<and> load (localStorage s)
               = Inr (JArray [JString (js ''w-ai''), JString (js ''w-weather''), JString (js ''w-timer'')])
       | _ \<Rightarrow> False"
    by blast
  show ?thesis
    using f1 c1 f2 c2 ld al c3 by (intro conjI)
qed

section \<open>The claims on the insight widget\<close>

text \<open>
  C4. Without a key (\<open>API_KEY\<close> undefined or empty) \<open>generateBriefing\<close> performs one
  effect, setting the message "API Key not configured. Please set process.env.API_KEY.":
  the only state it leads through has \<open>loading\<close> false and no call in flight, and that is
  the state after mounting, in which the widget shows this very message. The message is
  not empty and differs from "Could not generate briefing at this time.", the one the
  \<open>catch\<close> block sets when a call fails.
\<close>

theorem mount_without_key_fails_not_configured:
  "\<not> truthy API_KEY \<longrightarrow>
     generateBriefing API_KEY att
       = [SetBriefing (Some (js ''API Key not configured. Please set process.env.API_KEY.''))]
     \<and> states_through (generateBriefing API_KEY att) initial_widget
         = [\<lparr>briefing = Some (js ''API Key not configured. Please set process.env.API_KEY.''),
             loading = False, in_flight = 0\<rparr>]
     \<and> mount API_KEY att
         = \<lparr>briefing = Some (js ''API Key not configured. Please set process.env.API_KEY.''),
            loading = False, in_flight = 0\<rparr>
     \<and> display (mount API_KEY att)
         = Paragraph (js ''API Key not configured. Please set process.env.API_KEY.'')
     \<and> settled Rejected
         = [SetBriefing (Some (js ''Could not generate briefing at this time.'')),
            SetLoading False]
     \<and> NOT_CONFIGURED = js ''API Key not configured. Please set process.env.API_KEY.''
     \<and> CALL_FAILED = js ''Could not generate briefing at this time.''
     \<and> NOT_CONFIGURED \<noteq> []
     \<and> NOT_CONFIGURED \<noteq> CALL_FAILED"
proof (intro impI conjI)
  assume k: "\<not> truthy API_KEY"
  have g: "generateBriefing API_KEY att = [SetBriefing (Some NOT_CONFIGURED)]"
    using k by (simp add: generateBriefing_def)
  have m: "mount API_KEY att = \<lparr>briefing = Some NOT_CONFIGURED, loading = False, in_flight = 0\<rparr>"
    by (simp add: mount_def g perform_all_def initial_widget_def)
  have ne: "NOT_CONFIGURED \<noteq> []"
    by (simp add: NOT_CONFIGURED_def js_def)
  show "generateBriefing API_KEY att
       = [SetBriefing (Some (js ''API Key not configured. Please set process.env.API_KEY.''))]"
    using g by (simp only: NOT_CONFIGURED_def)
  show "states_through (generateBriefing API_KEY att) initial_widget
         = [\<lparr>briefing = Some (js ''API Key not configured. Please set process.env.API_KEY.''),
             loading = False, in_flight = 0\<rparr>]"
    by (simp add: g initial_widget_def NOT_CONFIGURED_def)
  show "mount API_KEY att
         = \<lparr>briefing = Some (js ''API Key not configured. Please set process.env.API_KEY.''),
            loading = False, in_flight = 0\<rparr>"
    using m by (simp only: NOT_CONFIGURED_def)
  show "display (mount API_KEY att)
         = Paragraph (js ''API Key not configured. Please set process.env.API_KEY.'')"
    using ne by (simp add: m display_def truthy_def) (simp only: NOT_CONFIGURED_def)
  show "settled Rejected
         = [SetBriefing (Some (js ''Could not generate briefing at this time.'')),
            SetLoading False]"
    by (simp add: CALL_FAILED_def)
  show "NOT_CONFIGURED = js ''API Key not configured. Please set process.env.API_KEY.''"
    by (rule NOT_CONFIGURED_def)
  show "CALL_FAILED = js ''Could not generate briefing at this time.''"
    by (rule CALL_FAILED_def)
  show "NOT_CONFIGURED \<noteq> []"
    by (rule ne)
  show "NOT_CONFIGURED \<noteq> CALL_FAILED"
    by (rule messages_differ)
qed

theorem mount_without_key_fails_not_configured_witness:
  "\<not> truthy None
   \<and> generateBriefing None Issued
       = [SetBriefing (Some (js ''API Key not configured. Please set process.env.API_KEY.''))]
   \<and> states_through (generateBriefing None Issued) initial_widget
       = [\<lparr>briefing = Some (js ''API Key not configured. Please set process.env.API_KEY.''),
           loading = False, in_flight = 0\<rparr>]
   \<and> mount None Issued
       = \<lparr>briefing = Some (js ''API Key not configured. Please set process.env.API_KEY.''),
          loading = False, in_flight = 0\<rparr>
   \<and> display (mount None Issued)
       = Paragraph (js ''API Key not configured. Please set process.env.API_KEY.'')
   \<and> NOT_CONFIGURED \<noteq> []
   \<and> NOT_CONFIGURED \<noteq> CALL_FAILED"
proof -
  have h: "\<not> truthy None"
    by (simp add: truthy_def)
  show ?thesis
    using h mount_without_key_fails_not_configured [of None Issued] by blast
qed

text \<open>
  C3 (as the specification states it, refuted). With a key, the mounted widget is loading
  with one call in flight; a refresh in that state issues a second call.
\<close>

theorem refresh_while_loading_counterexample:
  "loading (mount (Some (js ''key'')) Issued)
   \<and> in_flight (mount (Some (js ''key'')) Issued) = 1
   \<and> in_flight (handle (Some (js ''key'')) (Refresh Issued) (mount (Some (js ''key'')) Issued)) = 2
   \<and> handle (Some (js ''key'')) (Refresh Issued) (mount (Some (js ''key'')) Issued)
       \<noteq> mount (Some (js ''key'')) Issued"
  by (simp add: mount_def generateBriefing_def perform_all_def initial_widget_def truthy_def
      js_def)

text \<open>
  C3 (amended). With a key, a refresh requested while the widget is loading leaves the
  loading flag and the briefing text as they are and issues one more call: after
  mounting and \<open>n\<close> refreshes with no call settled, the widget is loading, shows no
  briefing, and has \<open>n + 1\<close> calls in flight.
\<close>

theorem refresh_while_loading_starts_another_call:
  "truthy API_KEY \<longrightarrow>
     (loading w \<longrightarrow>
        handle API_KEY (Refresh Issued) w = w\<lparr>in_flight := Suc (in_flight w)\<rparr>)
     \<and> loading (run_events API_KEY Issued (replicate n (Refresh Issued)))
     \<and> briefing (run_events API_KEY Issued (replicate n (Refresh Issued))) = None
     \<and> in_flight (run_events API_KEY Issued (replicate n (Refresh Issued))) = Suc n"
proof (intro impI conjI)
  assume k: "truthy API_KEY"
  show "handle API_KEY (Refresh Issued) w = w\<lparr>in_flight := Suc (in_flight w)\<rparr>"
    if "loading w"
    using k that by (simp add: handle_Refresh_key del: handle.simps)
  have m: "mount API_KEY Issued = \<lparr>briefing = None, loading = True, in_flight = 1\<rparr>"
    using k by (simp add: mount_def handle_Refresh_key initial_widget_def del: handle.simps)
  have r: "run_events API_KEY Issued (replicate n (Refresh Issued))
             = \<lparr>briefing = None, loading = True, in_flight = Suc n\<rparr>"
    by (simp only: run_events_def refreshes_in_flight [OF k] m) simp
  show "loading (run_events API_KEY Issued (replicate n (Refresh Issued)))"
    and "briefing (run_events API_KEY Issued (replicate n (Refresh Issued))) = None"
    and "in_flight (run_events API_KEY Issued (replicate n (Refresh Issued))) = Suc n"
    by (simp_all add: r)
qed

theorem refresh_while_loading_starts_another_call_witness:
  "truthy (Some (js ''key''))
   \<and> loading (mount (Some (js ''key'')) Issued)
   \<and> handle (Some (js ''key'')) (Refresh Issued) (mount (Some (js ''key'')) Issued)
       = (mount (Some (js ''key'')) Issued)
           \<lparr>in_flight := Suc (in_flight (mount (Some (js ''key'')) Issued))\<rparr>
   \<and> in_flight (run_events (Some (js ''key'')) Issued (replicate 3 (Refresh Issued))) = 4"
proof -
  have k: "truthy (Some (js ''key''))"
    by (simp add: truthy_def js_def)
  have l: "loading (mount (Some (js ''key'')) Issued)"
    using k by (simp add: mount_def handle_Refresh_key del: handle.simps)
  note t = refresh_while_loading_starts_another_call
    [where API_KEY = "Some (js ''key'')" and w = "mount (Some (js ''key'')) Issued" and n = 3]
  from t k l have
    "handle (Some (js ''key'')) (Refresh Issued) (mount (Some (js ''key'')) Issued)
       = (mount (Some (js ''key'')) Issued)
           \<lparr>in_flight := Suc (in_flight (mount (Some (js ''key'')) Issued))\<rparr>"
    and "in_flight (run_events (Some (js ''key'')) Issued (replicate 3 (Refresh Issued))) = Suc 3"
    by blast+
  then show ?thesis
    using k l by simp
qed

end
